theory Spec2Isabelle
  imports Main "HOL-Library.Word" "HOL-Library.Log_Nat"
begin

unbundle bit_operations_syntax

section \<open>Sample types\<close>

text \<open>
  The fixed-width sample types of \<^verbatim>\<open>WavUtils.h\<close>.  A word carries the bit pattern;
  \<open>uint\<close> reads a \<^verbatim>\<open>uint8_t\<close>, \<open>sint\<close> reads an \<^verbatim>\<open>int16_t\<close> or \<^verbatim>\<open>int32_t\<close>.
\<close>

type_synonym uint8_t = "8 word"
type_synonym int16_t = "16 word"
type_synonym int32_t = "32 word"

section \<open>Sample Conversion Matrix: the integer entries (WavUtils.cpp)\<close>

text \<open>
  Each function is the body of its C++ namesake.  Operands narrower than \<^verbatim>\<open>int\<close> are
  promoted to a 32-bit \<^verbatim>\<open>int\<close> first (\<open>ucast\<close> from \<^verbatim>\<open>uint8_t\<close>, \<open>scast\<close> from
  \<^verbatim>\<open>int16_t\<close>), \<^verbatim>\<open>>>\<close> on a signed operand is the arithmetic shift
  \<open>signed_drop_bit\<close>, \<^verbatim>\<open><<\<close> is \<open>push_bit\<close>, and a \<^verbatim>\<open>static_cast\<close> to a narrower
  type keeps the low bits (\<open>ucast\<close>).
\<close>

definition convert_int16_to_uint8 :: "int16_t \<Rightarrow> uint8_t" where
  "convert_int16_to_uint8 sample =
     ucast ((signed_drop_bit 8 (scast sample :: int32_t) + 128) AND 0xFF)"

definition convert_int32_to_uint8 :: "int32_t \<Rightarrow> uint8_t" where
  "convert_int32_to_uint8 sample = ucast ((signed_drop_bit 24 sample + 128) AND 0xFF)"

definition convert_uint8_to_int16 :: "uint8_t \<Rightarrow> int16_t" where
  "convert_uint8_to_int16 sample = ucast (((ucast sample :: int32_t) - 128) * 256)"

definition convert_int32_to_int16 :: "int32_t \<Rightarrow> int16_t" where
  "convert_int32_to_int16 sample = ucast (signed_drop_bit 16 sample)"

definition convert_uint8_to_int24 :: "uint8_t \<Rightarrow> int32_t" where
  "convert_uint8_to_int24 sample = ((ucast sample :: int32_t) - 128) * 65536"

definition convert_int16_to_int24 :: "int16_t \<Rightarrow> int32_t" where
  "convert_int16_to_int24 sample = push_bit 8 (scast sample :: int32_t)"

definition convert_int32_to_int24 :: "int32_t \<Rightarrow> int32_t" where
  "convert_int32_to_int24 sample = signed_drop_bit 8 sample"

definition convert_uint8_to_int32 :: "uint8_t \<Rightarrow> int32_t" where
  "convert_uint8_to_int32 sample = push_bit 24 ((ucast sample :: int32_t) - 128)"

definition convert_int16_to_int32 :: "int16_t \<Rightarrow> int32_t" where
  "convert_int16_to_int32 sample = push_bit 16 (scast sample :: int32_t)"

subsection \<open>The formulas of the specification, over the integers\<close>

text \<open>
  The table of section 4.1 of the specification, read over unbounded integers: \<open>x\<close> is the
  value of the input sample, \<^verbatim>\<open>>>\<close> is the arithmetic shift (\<open>drop_bit\<close> on \<open>int\<close>
  rounds towards minus infinity), \<^verbatim>\<open><<\<close> is \<open>push_bit\<close> and \<^verbatim>\<open>& 0xFF\<close> is the
  two's-complement conjunction with 255.
\<close>

definition spec_int16_to_uint8 :: "int \<Rightarrow> int" where
  "spec_int16_to_uint8 x = (drop_bit 8 x + 128) AND 0xFF"

definition spec_int32_to_uint8 :: "int \<Rightarrow> int" where
  "spec_int32_to_uint8 x = (drop_bit 24 x + 128) AND 0xFF"

definition spec_uint8_to_int16 :: "int \<Rightarrow> int" where
  "spec_uint8_to_int16 x = (x - 128) * 256"

definition spec_int32_to_int16 :: "int \<Rightarrow> int" where
  "spec_int32_to_int16 x = drop_bit 16 x"

definition spec_uint8_to_int24 :: "int \<Rightarrow> int" where
  "spec_uint8_to_int24 x = (x - 128) * 65536"

definition spec_int16_to_int24 :: "int \<Rightarrow> int" where
  "spec_int16_to_int24 x = push_bit 8 x"

definition spec_int32_to_int24 :: "int \<Rightarrow> int" where
  "spec_int32_to_int24 x = drop_bit 8 x"

definition spec_uint8_to_int32 :: "int \<Rightarrow> int" where
  "spec_uint8_to_int32 x = push_bit 24 (x - 128)"

definition spec_int16_to_int32 :: "int \<Rightarrow> int" where
  "spec_int16_to_int32 x = push_bit 16 x"

section \<open>Configuration (WavConfiguration.h)\<close>

datatype WavFormat = PCM | FLOAT

datatype WavSampleRate =
    SAMPLE_RATE_8000 | SAMPLE_RATE_11025 | SAMPLE_RATE_16000 | SAMPLE_RATE_22050
  | SAMPLE_RATE_32000 | SAMPLE_RATE_44100 | SAMPLE_RATE_48000 | SAMPLE_RATE_96000
  | SAMPLE_RATE_176400 | SAMPLE_RATE_192000 | SAMPLE_RATE_352800 | SAMPLE_RATE_384000

datatype WavBitDepth = BIT_DEPTH_8 | BIT_DEPTH_16 | BIT_DEPTH_24 | BIT_DEPTH_32

text \<open>The enumerators' values.\<close>

fun format_value :: "WavFormat \<Rightarrow> nat" where
  "format_value PCM = 1"
| "format_value FLOAT = 3"

fun sample_rate_value :: "WavSampleRate \<Rightarrow> nat" where
  "sample_rate_value SAMPLE_RATE_8000 = 8000"
| "sample_rate_value SAMPLE_RATE_11025 = 11025"
| "sample_rate_value SAMPLE_RATE_16000 = 16000"
| "sample_rate_value SAMPLE_RATE_22050 = 22050"
| "sample_rate_value SAMPLE_RATE_32000 = 32000"
| "sample_rate_value SAMPLE_RATE_44100 = 44100"
| "sample_rate_value SAMPLE_RATE_48000 = 48000"
| "sample_rate_value SAMPLE_RATE_96000 = 96000"
| "sample_rate_value SAMPLE_RATE_176400 = 176400"
| "sample_rate_value SAMPLE_RATE_192000 = 192000"
| "sample_rate_value SAMPLE_RATE_352800 = 352800"
| "sample_rate_value SAMPLE_RATE_384000 = 384000"

fun bit_depth_value :: "WavBitDepth \<Rightarrow> nat" where
  "bit_depth_value BIT_DEPTH_8 = 8"
| "bit_depth_value BIT_DEPTH_16 = 16"
| "bit_depth_value BIT_DEPTH_24 = 24"
| "bit_depth_value BIT_DEPTH_32 = 32"

record WavFileConfiguration =
  filename :: string
  sampleRate :: WavSampleRate
  numChannels :: uint8_t
  bitDepth :: WavBitDepth
  format :: WavFormat
  blockAlign :: "16 word"
  dataChunkSize :: "32 word"

section \<open>Bytes\<close>

type_synonym byte = "8 word"

definition bytes_of :: "string \<Rightarrow> byte list" where
  "bytes_of s = map of_char s"

text \<open>The object representation of a 16-bit and of a 32-bit value, little-endian.\<close>

definition le16 :: "16 word \<Rightarrow> byte list" where
  "le16 w = [ucast w, ucast (drop_bit 8 w)]"

definition le32 :: "32 word \<Rightarrow> byte list" where
  "le32 w = [ucast w, ucast (drop_bit 8 w), ucast (drop_bit 16 w), ucast (drop_bit 24 w)]"

text \<open>
  A float sample is carried as its IEEE-754 bit pattern: the reader and the writer move
  floats between memory and the file byte for byte.  Arithmetic on floats is not part of
  this carrier.
\<close>

datatype float32 = Float32 (float_bits: "32 word")

section \<open>Errors\<close>

text \<open>
  The ways a call can leave the defined behaviour of the program: a failed \<^verbatim>\<open>assert\<close>,
  an index outside a \<^verbatim>\<open>std::vector\<close> or outside a caller's array, and an integer
  division by zero.
\<close>

datatype error = AssertionFailed | OutOfBounds | DivisionByZero

text \<open>Sequencing: the second step runs on the result of the first unless that failed.\<close>

definition and_then :: "error + 'a \<Rightarrow> ('a \<Rightarrow> error + 'b) \<Rightarrow> error + 'b" where
  "and_then r f = (case r of Inl e \<Rightarrow> Inl e | Inr x \<Rightarrow> f x)"

text \<open>A \<^verbatim>\<open>for\<close> loop over the indices \<open>is\<close>, stopping at the first error.\<close>

fun for_each :: "nat list \<Rightarrow> (nat \<Rightarrow> 's \<Rightarrow> error + 's) \<Rightarrow> 's \<Rightarrow> error + 's" where
  "for_each [] body s = Inr s"
| "for_each (i # is) body s =
     (case body i s of Inl e \<Rightarrow> Inl e | Inr s' \<Rightarrow> for_each is body s')"

text \<open>\<^verbatim>\<open>v[i] = x\<close> on a vector, and \<^verbatim>\<open>a[i]\<close> on a vector or an array of known extent.\<close>

definition vec_store :: "nat \<Rightarrow> 'a \<Rightarrow> 'a list \<Rightarrow> error + 'a list" where
  "vec_store i x v = (if i < length v then Inr (v[i := x]) else Inl OutOfBounds)"

definition vec_load :: "'a list \<Rightarrow> nat \<Rightarrow> error + 'a" where
  "vec_load v i = (if i < length v then Inr (v ! i) else Inl OutOfBounds)"

section \<open>Output stream\<close>

text \<open>
  The \<^verbatim>\<open>std::ofstream\<close> of the writer: the file's content, the put position and whether
  the stream is open.  Faults of the device (a full disk) are not modelled.
\<close>

record ofstream =
  content :: "byte list"
  ppos :: nat
  opened :: bool

definition ofstream_closed :: ofstream where
  "ofstream_closed = \<lparr>content = [], ppos = 0, opened = False\<rparr>"

text \<open>
  \<^verbatim>\<open>write\<close> stores at the put position, over what is there and beyond the end; on a
  stream that is not open it stores nothing.  A position beyond the end is first reached
  with zero bytes.
\<close>

definition ofstream_write :: "byte list \<Rightarrow> ofstream \<Rightarrow> ofstream" where
  "ofstream_write bs s =
     (if opened s then
        s\<lparr>content := take (ppos s) (content s) @ replicate (ppos s - length (content s)) 0
                      @ bs @ drop (ppos s + length bs) (content s),
          ppos := ppos s + length bs\<rparr>
      else s)"

definition ofstream_seekp :: "nat \<Rightarrow> ofstream \<Rightarrow> ofstream" where
  "ofstream_seekp n s = (if opened s then s\<lparr>ppos := n\<rparr> else s)"

definition ofstream_close :: "ofstream \<Rightarrow> ofstream" where
  "ofstream_close s = s\<lparr>opened := False\<rparr>"

section \<open>Writer (WavWriter.h, WavWriter.cpp)\<close>

record WavWriter =
  m_config :: WavFileConfiguration
  m_fileStream :: ofstream
  m_totalFileSize :: "32 word"

text \<open>The private constructor: the configuration, a stream not yet open, a total of 0.\<close>

definition WavWriter_new :: "WavFileConfiguration \<Rightarrow> WavWriter" where
  "WavWriter_new configuration =
     \<lparr>m_config = configuration, m_fileStream = ofstream_closed, m_totalFileSize = 0\<rparr>"

text \<open>
  The move constructor moves the configuration and the stream; \<^verbatim>\<open>m_totalFileSize\<close> is
  not in its initialiser list and takes its default member initialiser, 0.
\<close>

definition WavWriter_move :: "WavWriter \<Rightarrow> WavWriter" where
  "WavWriter_move other =
     \<lparr>m_config = m_config other, m_fileStream = m_fileStream other, m_totalFileSize = 0\<rparr>"

definition write_header :: "WavWriter \<Rightarrow> WavWriter" where
  "write_header w =
     (let sampleRate' = (of_nat (sample_rate_value (sampleRate (m_config w))) :: 32 word);
          numChannels' = (ucast (numChannels (m_config w)) :: 16 word);
          bitDepth' = (of_nat (bit_depth_value (bitDepth (m_config w))) :: 16 word);
          chunkSize = (0 :: 32 word);
          subchunk1Size = (16 :: 32 word);
          audioFormat = (of_nat (format_value (format (m_config w))) :: 16 word);
          byteRate = sampleRate' * ucast numChannels' * ucast (bitDepth' div 8);
          blockAlign' = numChannels' * (bitDepth' div 8);
          subchunk2Size = (0 :: 32 word)
      in w\<lparr>m_fileStream :=
            (ofstream_write (le32 subchunk2Size)
             \<circ> ofstream_write (bytes_of ''data'')
             \<circ> ofstream_write (le16 bitDepth')
             \<circ> ofstream_write (le16 blockAlign')
             \<circ> ofstream_write (le32 byteRate)
             \<circ> ofstream_write (le32 sampleRate')
             \<circ> ofstream_write (le16 numChannels')
             \<circ> ofstream_write (le16 audioFormat)
             \<circ> ofstream_write (le32 subchunk1Size)
             \<circ> ofstream_write (bytes_of ''fmt '')
             \<circ> ofstream_write (bytes_of ''WAVE'')
             \<circ> ofstream_write (le32 chunkSize)
             \<circ> ofstream_write (bytes_of ''RIFF'')) (m_fileStream w)\<rparr>)"

text \<open>
  \<^verbatim>\<open>open_file\<close>: \<open>can_create\<close> says which paths can be opened for writing.  Opening
  truncates the file.  The configuration is not examined.
\<close>

definition open_file :: "(string \<Rightarrow> bool) \<Rightarrow> WavWriter \<Rightarrow> bool \<times> WavWriter" where
  "open_file can_create w =
     (if \<not> can_create (filename (m_config w)) then (False, w)
      else (True, write_header (w\<lparr>m_fileStream := \<lparr>content = [], ppos = 0, opened = True\<rparr>\<rparr>)))"

text \<open>
  \<^verbatim>\<open>WavWriter::create\<close>: the object is returned through
  \<^verbatim>\<open>std::optional<WavWriter>\<close>, which move-constructs it.
\<close>

definition WavWriter_create :: "(string \<Rightarrow> bool) \<Rightarrow> WavFileConfiguration \<Rightarrow> WavWriter option" where
  "WavWriter_create can_create configuration =
     (case open_file can_create (WavWriter_new configuration) of
        (False, obj) \<Rightarrow> None
      | (True, obj) \<Rightarrow> Some (WavWriter_move obj))"

definition finalize_header :: "WavWriter \<Rightarrow> WavWriter" where
  "finalize_header w =
     (let chunkSize = 36 + m_totalFileSize w
      in w\<lparr>m_fileStream :=
            (ofstream_write (le32 (m_totalFileSize w))
             \<circ> ofstream_seekp 40
             \<circ> ofstream_write (le32 chunkSize)
             \<circ> ofstream_seekp 4) (m_fileStream w)\<rparr>)"

definition close_file :: "WavWriter \<Rightarrow> WavWriter" where
  "close_file w =
     (if \<not> opened (m_fileStream w) then w
      else (let w' = finalize_header w
            in w'\<lparr>m_fileStream := ofstream_close (m_fileStream w')\<rparr>))"

text \<open>The destructor.\<close>

definition WavWriter_destroy :: "WavWriter \<Rightarrow> WavWriter" where
  "WavWriter_destroy w = (if opened (m_fileStream w) then close_file w else w)"

subsection \<open>Writing samples\<close>

text \<open>
  A vector of samples in the on-disk representation, as \<^verbatim>\<open>write_samples<T>\<close> receives it:
  \<^verbatim>\<open>T\<close> is \<^verbatim>\<open>float\<close>, \<^verbatim>\<open>uint8_t\<close>, \<^verbatim>\<open>int16_t\<close> or \<^verbatim>\<open>int32_t\<close>.
\<close>

datatype sample_vector =
    FloatVec "float32 list" | U8Vec "uint8_t list" | I16Vec "int16_t list" | I32Vec "int32_t list"

fun vec_size :: "sample_vector \<Rightarrow> nat" where
  "vec_size (FloatVec v) = length v"
| "vec_size (U8Vec v) = length v"
| "vec_size (I16Vec v) = length v"
| "vec_size (I32Vec v) = length v"

fun sizeof_T :: "sample_vector \<Rightarrow> nat" where
  "sizeof_T (FloatVec v) = 4"
| "sizeof_T (U8Vec v) = 1"
| "sizeof_T (I16Vec v) = 2"
| "sizeof_T (I32Vec v) = 4"

text \<open>The bytes of \<^verbatim>\<open>formattedSamples.data()\<close>, on a little-endian host.\<close>

fun vec_data :: "sample_vector \<Rightarrow> byte list" where
  "vec_data (FloatVec v) = concat (map (\<lambda>x. le32 (float_bits x)) v)"
| "vec_data (U8Vec v) = v"
| "vec_data (I16Vec v) = concat (map le16 v)"
| "vec_data (I32Vec v) = concat (map le32 v)"

definition write_samples :: "sample_vector \<Rightarrow> bool \<Rightarrow> WavWriter \<Rightarrow> WavWriter" where
  "write_samples formattedSamples ignoreSize w =
     (let w' = w\<lparr>m_fileStream := ofstream_write (vec_data formattedSamples) (m_fileStream w)\<rparr>
      in if ignoreSize
         then w'\<lparr>m_totalFileSize := m_totalFileSize w' + of_nat (vec_size formattedSamples)\<rparr>
         else w'\<lparr>m_totalFileSize :=
                   m_totalFileSize w' + of_nat (vec_size formattedSamples * sizeof_T formattedSamples)\<rparr>)"

text \<open>
  The input type \<^verbatim>\<open>DataType\<close> of a call of \<^verbatim>\<open>write\<close>, as the \<^verbatim>\<open>if constexpr\<close> chains
  resolve it: for each on-disk representation, the conversion applied to an input sample.
\<close>

record 'a data_type =
  to_float32 :: "'a \<Rightarrow> float32"
  to_pcm8 :: "'a \<Rightarrow> uint8_t"
  to_pcm16 :: "'a \<Rightarrow> int16_t"
  to_pcm24 :: "'a \<Rightarrow> int32_t"
  to_pcm32 :: "'a \<Rightarrow> int32_t"

text \<open>
  The three integer input types.  The writer only stores the bits of the float that the
  conversion to float returns: that conversion is a parameter here.
\<close>

definition data_type_uint8 :: "(uint8_t \<Rightarrow> float32) \<Rightarrow> uint8_t data_type" where
  "data_type_uint8 convert_uint8_to_float =
     \<lparr>to_float32 = convert_uint8_to_float, to_pcm8 = (\<lambda>x. x),
      to_pcm16 = convert_uint8_to_int16, to_pcm24 = convert_uint8_to_int24,
      to_pcm32 = convert_uint8_to_int32\<rparr>"

definition data_type_int16 :: "(int16_t \<Rightarrow> float32) \<Rightarrow> int16_t data_type" where
  "data_type_int16 convert_int16_to_float =
     \<lparr>to_float32 = convert_int16_to_float, to_pcm8 = convert_int16_to_uint8,
      to_pcm16 = (\<lambda>x. x), to_pcm24 = convert_int16_to_int24,
      to_pcm32 = convert_int16_to_int32\<rparr>"

definition data_type_int32 :: "(int32_t \<Rightarrow> float32) \<Rightarrow> int32_t data_type" where
  "data_type_int32 convert_int32_to_float =
     \<lparr>to_float32 = convert_int32_to_float, to_pcm8 = convert_int32_to_uint8,
      to_pcm16 = convert_int32_to_int16, to_pcm24 = convert_int32_to_int24,
      to_pcm32 = (\<lambda>x. x)\<rparr>"

text \<open>\<^verbatim>\<open>sampleArrays[ch][i]\<close>: the caller's arrays, read within their extent.\<close>

definition sample_at :: "'a list list \<Rightarrow> nat \<Rightarrow> nat \<Rightarrow> error + 'a" where
  "sample_at sampleArrays ch i =
     and_then (vec_load sampleArrays ch) (\<lambda>a. vec_load a i)"

text \<open>
  The loop shared by \<^verbatim>\<open>write_to_float32\<close>, \<^verbatim>\<open>write_to_pcm8\<close>, \<^verbatim>\<open>write_to_pcm16\<close> and
  \<^verbatim>\<open>write_to_pcm32\<close>: a vector of \<^verbatim>\<open>count * numChannels\<close> elements, and for each frame
  \<open>i\<close> and channel \<open>ch\<close> the converted sample stored at \<^verbatim>\<open>i * numChannels + ch\<close>.
\<close>

definition interleave ::
  "('a \<Rightarrow> 'b) \<Rightarrow> 'b \<Rightarrow> nat \<Rightarrow> 'a list list \<Rightarrow> nat \<Rightarrow> error + 'b list" where
  "interleave conv zero nc sampleArrays count =
     for_each [0..<count] (\<lambda>i.
       for_each [0..<nc] (\<lambda>ch interleavedSamples.
         and_then (sample_at sampleArrays ch i) (\<lambda>x.
           vec_store (i * nc + ch) (conv x) interleavedSamples)))
       (replicate (count * nc) zero)"

definition write_to_float32 ::
  "'a data_type \<Rightarrow> 'a list list \<Rightarrow> nat \<Rightarrow> WavWriter \<Rightarrow> error + WavWriter" where
  "write_to_float32 d sampleArrays count w =
     (if bitDepth (m_config w) \<noteq> BIT_DEPTH_32 then Inl AssertionFailed
      else and_then (interleave (to_float32 d) (Float32 0) (unat (numChannels (m_config w)))
                       sampleArrays count)
             (\<lambda>interleavedSamples. Inr (write_samples (FloatVec interleavedSamples) False w)))"

definition write_to_pcm8 ::
  "'a data_type \<Rightarrow> 'a list list \<Rightarrow> nat \<Rightarrow> WavWriter \<Rightarrow> error + WavWriter" where
  "write_to_pcm8 d sampleArrays count w =
     and_then (interleave (to_pcm8 d) 0 (unat (numChannels (m_config w))) sampleArrays count)
       (\<lambda>interleavedSamples. Inr (write_samples (U8Vec interleavedSamples) False w))"

definition write_to_pcm16 ::
  "'a data_type \<Rightarrow> 'a list list \<Rightarrow> nat \<Rightarrow> WavWriter \<Rightarrow> error + WavWriter" where
  "write_to_pcm16 d sampleArrays count w =
     and_then (interleave (to_pcm16 d) 0 (unat (numChannels (m_config w))) sampleArrays count)
       (\<lambda>interleavedSamples. Inr (write_samples (I16Vec interleavedSamples) False w))"

text \<open>
  \<^verbatim>\<open>write_to_pcm24\<close>: a vector of \<^verbatim>\<open>count * numChannels * 3\<close> bytes; byte \<open>k\<close> of the
  sample of frame \<open>i\<close> and channel \<open>ch\<close> is stored at
  \<^verbatim>\<open>((i * numChannels + ch) * 3 + k) * numChannels + ch\<close>, as the source has it.
  \<open>pcm24_body\<close> is the body of the inner loop.
\<close>

definition pcm24_index :: "nat \<Rightarrow> nat \<Rightarrow> nat \<Rightarrow> nat \<Rightarrow> nat" where
  "pcm24_index nc i ch k = ((i * nc + ch) * 3 + k) * nc + ch"

definition pcm24_body ::
  "('a \<Rightarrow> int32_t) \<Rightarrow> nat \<Rightarrow> 'a list list \<Rightarrow> nat \<Rightarrow> nat \<Rightarrow> uint8_t list
     \<Rightarrow> error + uint8_t list" where
  "pcm24_body conv nc sampleArrays i ch interleavedSamples =
     and_then (sample_at sampleArrays ch i) (\<lambda>x.
       let sample = conv x in
       and_then (vec_store (pcm24_index nc i ch 0)
                   (ucast (sample AND 0xFF)) interleavedSamples) (\<lambda>v1.
       and_then (vec_store (pcm24_index nc i ch 1)
                   (ucast (signed_drop_bit 8 sample AND 0xFF)) v1) (\<lambda>v2.
       vec_store (pcm24_index nc i ch 2)
                   (ucast (signed_drop_bit 16 sample AND 0xFF)) v2)))"

definition pcm24_buffer ::
  "('a \<Rightarrow> int32_t) \<Rightarrow> nat \<Rightarrow> 'a list list \<Rightarrow> nat \<Rightarrow> error + uint8_t list" where
  "pcm24_buffer conv nc sampleArrays count =
     for_each [0..<count] (\<lambda>i. for_each [0..<nc] (pcm24_body conv nc sampleArrays i))
       (replicate (count * nc * 3) 0)"

definition write_to_pcm24 ::
  "'a data_type \<Rightarrow> 'a list list \<Rightarrow> nat \<Rightarrow> WavWriter \<Rightarrow> error + WavWriter" where
  "write_to_pcm24 d sampleArrays count w =
     and_then (pcm24_buffer (to_pcm24 d) (unat (numChannels (m_config w))) sampleArrays count)
       (\<lambda>interleavedSamples. Inr (write_samples (U8Vec interleavedSamples) True w))"

definition write_to_pcm32 ::
  "'a data_type \<Rightarrow> 'a list list \<Rightarrow> nat \<Rightarrow> WavWriter \<Rightarrow> error + WavWriter" where
  "write_to_pcm32 d sampleArrays count w =
     and_then (interleave (to_pcm32 d) 0 (unat (numChannels (m_config w))) sampleArrays count)
       (\<lambda>interleavedSamples. Inr (write_samples (I32Vec interleavedSamples) False w))"

definition write_buffer ::
  "'a data_type \<Rightarrow> 'a list list \<Rightarrow> nat \<Rightarrow> WavWriter \<Rightarrow> error + WavWriter" where
  "write_buffer d sampleArrays count w =
     (case format (m_config w) of
        FLOAT \<Rightarrow> write_to_float32 d sampleArrays count w
      | PCM \<Rightarrow>
          (case bitDepth (m_config w) of
             BIT_DEPTH_8 \<Rightarrow> write_to_pcm8 d sampleArrays count w
           | BIT_DEPTH_16 \<Rightarrow> write_to_pcm16 d sampleArrays count w
           | BIT_DEPTH_24 \<Rightarrow> write_to_pcm24 d sampleArrays count w
           | BIT_DEPTH_32 \<Rightarrow> write_to_pcm32 d sampleArrays count w))"

text \<open>
  \<^verbatim>\<open>write(count, samples, rest...)\<close>: \<^verbatim>\<open>num_arrays\<close> is the number of pointers passed,
  and the assertion is the first statement.
\<close>

definition WavWriter_write ::
  "'a data_type \<Rightarrow> nat \<Rightarrow> 'a list \<Rightarrow> 'a list list \<Rightarrow> WavWriter \<Rightarrow> error + WavWriter" where
  "WavWriter_write d count samples rest w =
     (let num_arrays = length rest + 1 in
      if num_arrays \<noteq> unat (numChannels (m_config w)) then Inl AssertionFailed
      else write_buffer d (samples # rest) count w)"

text \<open>
  A sequence of calls of \<^verbatim>\<open>write\<close> on one Writer, each with its frame count and its
  channel arrays; the sequence stops at the first call that fails.
\<close>

fun write_all ::
  "'a data_type \<Rightarrow> (nat \<times> 'a list \<times> 'a list list) list \<Rightarrow> WavWriter \<Rightarrow> error + WavWriter" where
  "write_all d [] w = Inr w"
| "write_all d ((count, samples, rest) # calls) w =
     and_then (WavWriter_write d count samples rest w) (write_all d calls)"

text \<open>
  The size the specification counts for one stored sample: 3 bytes for 24-bit PCM, and
  the size of the sample type otherwise.
\<close>

fun stored_sample_size :: "WavFormat \<Rightarrow> WavBitDepth \<Rightarrow> nat" where
  "stored_sample_size FLOAT b = 4"
| "stored_sample_size PCM BIT_DEPTH_8 = 1"
| "stored_sample_size PCM BIT_DEPTH_16 = 2"
| "stored_sample_size PCM BIT_DEPTH_24 = 3"
| "stored_sample_size PCM BIT_DEPTH_32 = 4"

text \<open>
  The 24-bit payload as the specification describes it: for every frame, for every
  channel, the three low bytes of the sample's int24 carrier, least significant first,
  with no padding.  Byte \<open>k\<close> of the sample of frame \<open>i\<close> and channel \<open>ch\<close> stands at
  offset \<open>(i * numChannels + ch) * 3 + k\<close>.
\<close>

definition int24_bytes :: "int32_t \<Rightarrow> byte list" where
  "int24_bytes sample =
     [ucast (sample AND 0xFF), ucast (signed_drop_bit 8 sample AND 0xFF),
      ucast (signed_drop_bit 16 sample AND 0xFF)]"

definition spec_pcm24_payload ::
  "('a \<Rightarrow> int32_t) \<Rightarrow> nat \<Rightarrow> 'a list list \<Rightarrow> nat \<Rightarrow> byte list" where
  "spec_pcm24_payload conv nc sampleArrays count =
     concat (map (\<lambda>i. concat (map (\<lambda>ch. int24_bytes (conv (sampleArrays ! ch ! i))) [0..<nc]))
       [0..<count])"

section \<open>Sample Conversion Matrix: the entries to float (WavUtils.cpp)\<close>

text \<open>
  The value of a finite float is a rational number.  \<open>f32_round\<close> rounds a rational to
  the nearest value of the IEEE-754 binary32 format (24 significant bits, ties to even),
  as every float operation and every conversion to float does.  It is right for results
  in the normal range, from \<open>2\<^sup>-\<^sup>1\<^sup>2\<^sup>6\<close> to below \<open>2\<^sup>1\<^sup>2\<^sup>8\<close> in magnitude, and for 0; the
  conversions below stay within it.
\<close>

type_synonym float_value = rat

definition pow2 :: "int \<Rightarrow> rat" where
  "pow2 k = (if 0 \<le> k then 2 ^ nat k else 1 / 2 ^ nat (- k))"

text \<open>The exponent \<open>e\<close> with \<open>2\<^sup>e \<le> q < 2\<^sup>e\<^sup>+\<^sup>1\<close>, for \<open>q > 0\<close>.\<close>

definition floor_log2 :: "rat \<Rightarrow> int" where
  "floor_log2 q =
     (let (a, b) = quotient_of q; d = bitlen a - bitlen b
      in if pow2 d \<le> q then d else d - 1)"

definition round_half_even :: "rat \<Rightarrow> int" where
  "round_half_even m =
     (let f = \<lfloor>m\<rfloor>; r = m - of_int f
      in if r < 1 / 2 then f else if 1 / 2 < r then f + 1 else if even f then f else f + 1)"

definition f32_round :: "rat \<Rightarrow> float_value" where
  "f32_round q =
     (if q = 0 then 0
      else let ulp = pow2 (floor_log2 \<bar>q\<bar> - 23)
           in sgn q * of_int (round_half_even (\<bar>q\<bar> / ulp)) * ulp)"

definition convert_uint8_to_float :: "uint8_t \<Rightarrow> float_value" where
  "convert_uint8_to_float sample =
     f32_round (f32_round (f32_round (of_int (uint sample)) - f32_round (255 / 2))
                / f32_round (255 / 2))"

definition convert_int16_to_float :: "int16_t \<Rightarrow> float_value" where
  "convert_int16_to_float sample = f32_round (f32_round (of_int (sint sample)) / f32_round 32767)"

definition convert_int32_to_float :: "int32_t \<Rightarrow> float_value" where
  "convert_int32_to_float sample =
     f32_round (f32_round (of_int (sint sample)) / f32_round 2147483647)"

text \<open>
  The conversion of a float to an integer type, implicit or by \<^verbatim>\<open>static_cast\<close>, drops
  the fraction.  (Outside the range of the target type the conversion is undefined; the
  results of the three functions above lie between \<open>-1\<close> and \<open>1\<close>.)
\<close>

definition truncate_float :: "float_value \<Rightarrow> int" where
  "truncate_float v = (if 0 \<le> v then \<lfloor>v\<rfloor> else - \<lfloor>- v\<rfloor>)"

section \<open>Input stream\<close>

text \<open>
  The \<^verbatim>\<open>std::ifstream\<close> of the reader: the bytes from the get position to the end of the
  file, the fail bit, and the count of the last unformatted read.  The reader only moves
  forward, so the bytes behind the get position are not kept.
\<close>

record ifstream =
  unread :: "byte list"
  failbit :: bool
  gcount :: nat

text \<open>
  \<^verbatim>\<open>read(buf, n)\<close>: on a stream that has failed nothing is extracted; otherwise the next
  \<open>n\<close> bytes are, or as many as the file still has, and the stream fails when they are
  fewer than \<open>n\<close>.  The result is the bytes stored into the buffer.
\<close>

definition ifstream_read :: "nat \<Rightarrow> ifstream \<Rightarrow> byte list \<times> ifstream" where
  "ifstream_read n s =
     (if failbit s then ([], s\<lparr>gcount := 0\<rparr>)
      else (take n (unread s),
            \<lparr>unread = drop n (unread s), failbit = (length (unread s) < n),
             gcount = min n (length (unread s))\<rparr>))"

text \<open>
  \<^verbatim>\<open>seekg(off, std::ios::cur)\<close> with \<open>off \<ge> 0\<close>: nothing on a stream that has failed;
  otherwise the position moves, also beyond the end of the file, where the next read
  finds no byte.
\<close>

definition ifstream_seekg_cur :: "nat \<Rightarrow> ifstream \<Rightarrow> ifstream" where
  "ifstream_seekg_cur off s = (if failbit s then s else s\<lparr>unread := drop off (unread s)\<rparr>)"

text \<open>A little-endian value from its bytes; bytes that are missing count as zero.\<close>

definition word_of_bytes :: "byte list \<Rightarrow> 'a::len word" where
  "word_of_bytes bs = foldr (\<lambda>b acc. ucast b OR push_bit 8 acc) bs 0"

definition read_u16 :: "ifstream \<Rightarrow> 16 word \<times> ifstream" where
  "read_u16 s = (let (bs, s') = ifstream_read 2 s in (word_of_bytes bs, s'))"

definition read_u32 :: "ifstream \<Rightarrow> 32 word \<times> ifstream" where
  "read_u32 s = (let (bs, s') = ifstream_read 4 s in (word_of_bytes bs, s'))"

text \<open>A \<^verbatim>\<open>std::array<char, 4>\<close>, zero-initialised, after a read of up to four bytes into it.\<close>

definition char_array4 :: "byte list \<Rightarrow> byte list" where
  "char_array4 bs = bs @ replicate (4 - length bs) 0"

section \<open>Reader (WavReader.h, WavReader.cpp)\<close>

record WavReader =
  r_config :: WavFileConfiguration
  r_fileStream :: ifstream

text \<open>
  The \<^verbatim>\<open>static_cast\<close> of a header field to its enumeration.  The source applies each
  only to a value that has passed the check before it.
\<close>

definition WavFormat_cast :: "16 word \<Rightarrow> WavFormat" where
  "WavFormat_cast audioFormat = (if audioFormat = 1 then PCM else FLOAT)"

definition WavBitDepth_cast :: "16 word \<Rightarrow> WavBitDepth" where
  "WavBitDepth_cast v =
     (if v = 8 then BIT_DEPTH_8 else if v = 16 then BIT_DEPTH_16
      else if v = 24 then BIT_DEPTH_24 else BIT_DEPTH_32)"

definition WavSampleRate_cast :: "32 word \<Rightarrow> WavSampleRate" where
  "WavSampleRate_cast v =
     (if v = 8000 then SAMPLE_RATE_8000
      else if v = 11025 then SAMPLE_RATE_11025
      else if v = 16000 then SAMPLE_RATE_16000
      else if v = 22050 then SAMPLE_RATE_22050
      else if v = 32000 then SAMPLE_RATE_32000
      else if v = 44100 then SAMPLE_RATE_44100
      else if v = 48000 then SAMPLE_RATE_48000
      else if v = 96000 then SAMPLE_RATE_96000
      else if v = 176400 then SAMPLE_RATE_176400
      else if v = 192000 then SAMPLE_RATE_192000
      else if v = 352800 then SAMPLE_RATE_352800
      else SAMPLE_RATE_384000)"

text \<open>
  What one pass through the body of the \<^verbatim>\<open>while\<close> loop of \<^verbatim>\<open>read_header\<close> ends in:
  the \<^verbatim>\<open>break\<close>, a \<^verbatim>\<open>return false\<close>, or the end of the body with the flags as they
  are then.
\<close>

datatype scan_step =
    Break WavReader
  | ReturnFalse WavReader
  | Next bool bool WavReader

text \<open>
  The \<^verbatim>\<open>"fmt "\<close> branch.  The six fmt are read first, then any bytes of the
  subchunk beyond 16 are skipped, and then the fields are checked in the order of the
  source; each check that passes stores its field into the configuration.  After a short
  read a field holds whatever it held before; it is taken as the bytes read, completed by
  zeros.
\<close>

record fmt_fields =
  f_audioFormat :: "16 word"
  f_numChannels :: "16 word"
  f_sampleRate :: "32 word"
  f_byteRate :: "32 word"
  f_blockAlign :: "16 word"
  f_bitDepth :: "16 word"

definition read_fmt_fields :: "32 word \<Rightarrow> ifstream \<Rightarrow> fmt_fields \<times> ifstream" where
  "read_fmt_fields subchunkSize s =
     (let (audioFormat, s1) = read_u16 s;
          (numChannels', s2) = read_u16 s1;
          (sampleRate', s3) = read_u32 s2;
          (byteRate, s4) = read_u32 s3;
          (blockAlign', s5) = read_u16 s4;
          (bitDepth', s6) = read_u16 s5;
          fmtExtraBytes = int (unat subchunkSize) - 16;
          s7 = (if 0 < fmtExtraBytes then ifstream_seekg_cur (nat fmtExtraBytes) s6 else s6)
      in (\<lparr>f_audioFormat = audioFormat, f_numChannels = numChannels',
           f_sampleRate = sampleRate', f_byteRate = byteRate, f_blockAlign = blockAlign',
           f_bitDepth = bitDepth'\<rparr>, s7))"

definition assign_fmt_fields :: "fmt_fields \<Rightarrow> bool \<Rightarrow> WavReader \<Rightarrow> scan_step" where
  "assign_fmt_fields fmt foundData r0 =
     (if \<not> (f_audioFormat fmt = 1 \<or> f_audioFormat fmt = 3) then ReturnFalse r0
      else
      let r1 = r0\<lparr>r_config := (r_config r0)\<lparr>format := WavFormat_cast (f_audioFormat fmt)\<rparr>\<rparr>
      in if \<not> 0 < f_numChannels fmt then ReturnFalse r1
         else
      let r2 = r1\<lparr>r_config := (r_config r1)\<lparr>numChannels := ucast (f_numChannels fmt)\<rparr>\<rparr>
      in if \<not> (f_bitDepth fmt = 8 \<or> f_bitDepth fmt = 16 \<or> f_bitDepth fmt = 24
                \<or> f_bitDepth fmt = 32)
         then ReturnFalse r2
         else
      let r3 = r2\<lparr>r_config := (r_config r2)\<lparr>bitDepth := WavBitDepth_cast (f_bitDepth fmt)\<rparr>\<rparr>
      in if \<not> (f_sampleRate fmt = 8000 \<or> f_sampleRate fmt = 11025
                \<or> f_sampleRate fmt = 16000 \<or> f_sampleRate fmt = 22050
                \<or> f_sampleRate fmt = 32000 \<or> f_sampleRate fmt = 44100
                \<or> f_sampleRate fmt = 48000 \<or> f_sampleRate fmt = 96000
                \<or> f_sampleRate fmt = 176400 \<or> f_sampleRate fmt = 192000
                \<or> f_sampleRate fmt = 352800 \<or> f_sampleRate fmt = 384000)
         then ReturnFalse r3
         else
      let r4 = r3\<lparr>r_config := (r_config r3)
                   \<lparr>sampleRate := WavSampleRate_cast (f_sampleRate fmt),
                    blockAlign := f_blockAlign fmt\<rparr>\<rparr>
      in if format (r_config r4) = FLOAT \<and> bitDepth (r_config r4) \<noteq> BIT_DEPTH_32
         then ReturnFalse r4
         else if failbit (r_fileStream r4) then ReturnFalse r4
         else Next True foundData r4)"

definition scan_fmt :: "32 word \<Rightarrow> bool \<Rightarrow> WavReader \<Rightarrow> scan_step" where
  "scan_fmt subchunkSize foundData r =
     (let (fmt, s') = read_fmt_fields subchunkSize (r_fileStream r)
      in assign_fmt_fields fmt foundData (r\<lparr>r_fileStream := s'\<rparr>))"

definition scan_body :: "bool \<Rightarrow> bool \<Rightarrow> WavReader \<Rightarrow> scan_step" where
  "scan_body foundFmt foundData r =
     (let (subchunkId, s1) = ifstream_read 4 (r_fileStream r)
      in if gcount s1 \<noteq> 4 then Break (r\<lparr>r_fileStream := s1\<rparr>)
         else
      let (subchunkSize, s2) = read_u32 s1;
          r' = r\<lparr>r_fileStream := s2\<rparr>
      in if subchunkId = bytes_of ''fmt '' then scan_fmt subchunkSize foundData r'
         else if subchunkId = bytes_of ''data'' then
           (let r1 = r'\<lparr>r_config := (r_config r')\<lparr>dataChunkSize := subchunkSize\<rparr>\<rparr>
            in if failbit (r_fileStream r1) then ReturnFalse r1 else Next foundFmt True r1)
         else
           (let r1 = r'\<lparr>r_fileStream :=
                         ifstream_seekg_cur (unat ((subchunkSize + 1) AND NOT 1)) s2\<rparr>
            in if failbit (r_fileStream r1) then ReturnFalse r1
               else Next foundFmt foundData r1))"

text \<open>
  The loop of \<^verbatim>\<open>read_header\<close> and its \<^verbatim>\<open>return foundFmt && foundData\<close>.  Every pass
  that reaches the end of the body has read the eight bytes of a subchunk header, so the
  loop ends.
\<close>

lemma ifstream_read_unread_le:
  "length (unread (snd (ifstream_read n s))) \<le> length (unread s)"
  by (simp add: ifstream_read_def)

lemma ifstream_seekg_cur_unread_le:
  "length (unread (ifstream_seekg_cur n s)) \<le> length (unread s)"
  by (simp add: ifstream_seekg_cur_def)

lemma read_u16_unread_le: "length (unread (snd (read_u16 s))) \<le> length (unread s)"
  using ifstream_read_unread_le [of 2 s] by (simp add: read_u16_def split_beta)

lemma read_u32_unread_le: "length (unread (snd (read_u32 s))) \<le> length (unread s)"
  using ifstream_read_unread_le [of 4 s] by (simp add: read_u32_def split_beta)

lemma read_fmt_fields_unread_le:
  "length (unread (snd (read_fmt_fields subchunkSize s))) \<le> length (unread s)"
proof -
  let ?s1 = "snd (read_u16 s)"
  let ?s2 = "snd (read_u16 ?s1)"
  let ?s3 = "snd (read_u32 ?s2)"
  let ?s4 = "snd (read_u32 ?s3)"
  let ?s5 = "snd (read_u16 ?s4)"
  let ?s6 = "snd (read_u16 ?s5)"
  let ?s7 = "if 0 < int (unat subchunkSize) - 16
             then ifstream_seekg_cur (nat (int (unat subchunkSize) - 16)) ?s6 else ?s6"
  have "snd (read_fmt_fields subchunkSize s) = ?s7"
    by (simp add: read_fmt_fields_def Let_def split_beta)
  moreover have "length (unread ?s7) \<le> length (unread ?s6)"
    by (simp add: ifstream_seekg_cur_unread_le)
  moreover have "length (unread ?s6) \<le> length (unread s)"
    using read_u16_unread_le [of s] read_u16_unread_le [of ?s1]
      read_u32_unread_le [of ?s2] read_u32_unread_le [of ?s3] read_u16_unread_le [of ?s4]
      read_u16_unread_le [of ?s5]
    by linarith
  ultimately show ?thesis by simp
qed

lemma assign_fmt_fields_stream_case:
  "(case assign_fmt_fields fmt foundData r0 of
      Next ff fd r' \<Rightarrow> r_fileStream r' = r_fileStream r0
    | Break r' \<Rightarrow> True
    | ReturnFalse r' \<Rightarrow> True)"
  by (simp add: assign_fmt_fields_def Let_def)

lemma assign_fmt_fields_stream:
  "assign_fmt_fields fmt foundData r0 = Next ff fd r' \<Longrightarrow> r_fileStream r' = r_fileStream r0"
  using assign_fmt_fields_stream_case [where fmt = fmt and foundData = foundData and ?r0.0 = r0]
  by simp

lemma scan_fmt_unread_le:
  assumes "scan_fmt subchunkSize foundData r = Next ff fd r'"
  shows "length (unread (r_fileStream r')) \<le> length (unread (r_fileStream r))"
proof -
  from assms have "r_fileStream r' = snd (read_fmt_fields subchunkSize (r_fileStream r))"
    by (simp add: scan_fmt_def split_beta assign_fmt_fields_stream)
  then show ?thesis by (simp add: read_fmt_fields_unread_le)
qed

lemma scan_body_consumes:
  assumes "scan_body foundFmt foundData r = Next ff fd r'" "\<not> failbit (r_fileStream r)"
  shows "length (unread (r_fileStream r')) < length (unread (r_fileStream r))"
proof -
  let ?s1 = "snd (ifstream_read 4 (r_fileStream r))"
  let ?s2 = "snd (read_u32 ?s1)"
  from assms(1) have g: "gcount ?s1 = 4"
    by (auto simp: scan_body_def Let_def split_beta split: if_splits)
  with assms(2) have "4 \<le> length (unread (r_fileStream r))"
    by (auto simp: ifstream_read_def split: if_splits)
  with assms(2) have s1: "length (unread ?s1) < length (unread (r_fileStream r))"
    by (simp add: ifstream_read_def)
  have s2: "length (unread ?s2) \<le> length (unread ?s1)" by (rule read_u32_unread_le)
  have "length (unread (r_fileStream r')) \<le> length (unread ?s2)"
  proof (cases "fst (ifstream_read 4 (r_fileStream r)) = bytes_of ''fmt ''")
    case True
    with assms(1) g
    have "scan_fmt (fst (read_u32 ?s1)) foundData (r\<lparr>r_fileStream := ?s2\<rparr>) = Next ff fd r'"
      by (simp add: scan_body_def Let_def split_beta)
    from scan_fmt_unread_le [OF this] show ?thesis by simp
  next
    case False
    with assms(1) g show ?thesis
      by (cases "fst (ifstream_read 4 (r_fileStream r)) = bytes_of ''data''")
        (auto simp: scan_body_def Let_def split_beta ifstream_seekg_cur_unread_le
          split: if_splits)
  qed
  with s1 s2 show ?thesis by linarith
qed

function scan_chunks :: "bool \<Rightarrow> bool \<Rightarrow> WavReader \<Rightarrow> bool \<times> WavReader" where
  "scan_chunks foundFmt foundData r =
     (if failbit (r_fileStream r) \<or> \<not> (\<not> foundFmt \<or> \<not> foundData)
      then (foundFmt \<and> foundData, r)
      else case scan_body foundFmt foundData r of
             Break r' \<Rightarrow> (foundFmt \<and> foundData, r')
           | ReturnFalse r' \<Rightarrow> (False, r')
           | Next foundFmt' foundData' r' \<Rightarrow> scan_chunks foundFmt' foundData' r')"
  by pat_completeness auto
termination
  by (relation "measure (\<lambda>(foundFmt, foundData, r). length (unread (r_fileStream r)))")
    (auto dest: scan_body_consumes)

declare scan_chunks.simps [simp del]

definition read_header :: "WavReader \<Rightarrow> bool \<times> WavReader" where
  "read_header r =
     (let (chunkId, s1) = ifstream_read 4 (r_fileStream r)
      in if char_array4 chunkId \<noteq> bytes_of ''RIFF'' then (False, r\<lparr>r_fileStream := s1\<rparr>)
         else
      let (chunkSize, s2) = read_u32 s1;
          (format', s3) = ifstream_read 4 s2
      in if char_array4 format' \<noteq> bytes_of ''WAVE'' then (False, r\<lparr>r_fileStream := s3\<rparr>)
         else scan_chunks False False (r\<lparr>r_fileStream := s3\<rparr>))"

text \<open>
  \<^verbatim>\<open>open_file\<close>: \<open>files\<close> gives the content of every file that can be opened for
  reading.
\<close>

definition WavReader_open_file :: "(string \<rightharpoonup> byte list) \<Rightarrow> WavReader \<Rightarrow> bool \<times> WavReader" where
  "WavReader_open_file files r =
     (case files (filename (r_config r)) of
        None \<Rightarrow> (False, r)
      | Some bs \<Rightarrow> read_header (r\<lparr>r_fileStream := \<lparr>unread = bs, failbit = False, gcount = 0\<rparr>\<rparr>))"

text \<open>The private constructor: a default configuration with the file name.\<close>

definition WavReader_new :: "string \<Rightarrow> WavReader" where
  "WavReader_new filename' =
     \<lparr>r_config = \<lparr>filename = filename', sampleRate = SAMPLE_RATE_16000, numChannels = 1,
                  bitDepth = BIT_DEPTH_32, format = FLOAT, blockAlign = 0, dataChunkSize = 0\<rparr>,
      r_fileStream = \<lparr>unread = [], failbit = False, gcount = 0\<rparr>\<rparr>"

definition WavReader_create :: "(string \<rightharpoonup> byte list) \<Rightarrow> string \<Rightarrow> WavReader option" where
  "WavReader_create files filename' =
     (case WavReader_open_file files (WavReader_new filename') of
        (False, obj) \<Rightarrow> None
      | (True, obj) \<Rightarrow> Some obj)"

subsection \<open>Reading samples\<close>

text \<open>
  A vector of \<open>n\<close> bytes, zero-initialised, after a read of up to \<open>n\<close> bytes into it; and
  its elements of \<open>sizeof\<close> bytes each.
\<close>

definition filled :: "nat \<Rightarrow> byte list \<Rightarrow> byte list" where
  "filled n bs = bs @ replicate (n - length bs) 0"

definition elements :: "nat \<Rightarrow> (byte list \<Rightarrow> 'b) \<Rightarrow> byte list \<Rightarrow> 'b list" where
  "elements sizeof decode bs =
     map (\<lambda>i. decode (take sizeof (drop (i * sizeof) bs))) [0..<length bs div sizeof]"

text \<open>
  \<^verbatim>\<open>read_samples<T>\<close>, for a sample type of \<open>sizeof\<close> bytes decoded by \<open>decode\<close>.  With no
  channel the division by \<^verbatim>\<open>numChannels\<close> is a division by zero.
\<close>

definition read_samples ::
  "nat \<Rightarrow> (byte list \<Rightarrow> 'b) \<Rightarrow> nat \<Rightarrow> WavReader \<Rightarrow> error + ('b list list \<times> WavReader)" where
  "read_samples sizeof decode count r =
     (let nc = unat (numChannels (r_config r));
          (bs, s') = ifstream_read (count * nc * sizeof) (r_fileStream r);
          interleavedSamples = elements sizeof decode (filled (count * nc * sizeof) bs);
          samplesRead = gcount s' div sizeof
      in if nc = 0 then Inl DivisionByZero
         else
      let framesRead = samplesRead div nc;
          deinterleavedSamples =
            map (\<lambda>j. map (\<lambda>i. interleavedSamples ! (i * nc + j)) [0..<framesRead]) [0..<nc]
      in Inr (deinterleavedSamples, r\<lparr>r_fileStream := s'\<rparr>))"

definition read_raw_samples :: "nat \<Rightarrow> WavReader \<Rightarrow> byte list \<times> WavReader" where
  "read_raw_samples byteCount r =
     (let (bs, s') = ifstream_read byteCount (r_fileStream r)
      in (filled byteCount bs, r\<lparr>r_fileStream := s'\<rparr>))"

text \<open>
  \<^verbatim>\<open>convert_samples\<close>: the frame count is the size of \<^verbatim>\<open>input[0]\<close>, and every channel is
  read up to it.
\<close>

definition convert_samples :: "('b \<Rightarrow> 'a) \<Rightarrow> 'b list list \<Rightarrow> error + 'a list list" where
  "convert_samples converter input =
     (case input of
        [] \<Rightarrow> Inl OutOfBounds
      | c0 # cs \<Rightarrow>
          if list_all (\<lambda>c. length c0 \<le> length c) input
          then Inr (map (\<lambda>c. map (\<lambda>i. converter (c ! i)) [0..<length c0]) input)
          else Inl OutOfBounds)"

text \<open>
  The 24-bit sample of frame \<open>i\<close> and channel \<open>j\<close> in the raw bytes: three bytes, least
  significant first, and bit 23 extended into the high byte.
\<close>

definition pcm24_sample :: "byte list \<Rightarrow> nat \<Rightarrow> nat \<Rightarrow> nat \<Rightarrow> int32_t" where
  "pcm24_sample interleavedSamples nc i j =
     (let sample =
            ((ucast (interleavedSamples ! ((i * nc + j) * 3)) :: int32_t) AND 0xFF)
            OR push_bit 8 ((ucast (interleavedSamples ! ((i * nc + j) * 3 + 1)) :: int32_t) AND 0xFF)
            OR push_bit 16 ((ucast (interleavedSamples ! ((i * nc + j) * 3 + 2)) :: int32_t) AND 0xFF)
      in if sample AND 0x800000 \<noteq> 0 then sample OR 0xFF000000 else sample)"

text \<open>
  The output type \<^verbatim>\<open>T\<close> of a call of \<^verbatim>\<open>read<T>\<close>, as the \<^verbatim>\<open>if constexpr\<close> chains
  resolve it: for each on-disk representation, what is applied to a sample read.  Where
  \<^verbatim>\<open>T\<close> is the type read, the source returns the samples as they are: the entry is the
  identity.  For 24-bit PCM the source passes \<^verbatim>\<open>convert_int32_to_float\<close> to
  \<^verbatim>\<open>convert_samples<int32_t, T>\<close> whatever \<^verbatim>\<open>T\<close> is, and the float it returns is
  converted to \<^verbatim>\<open>T\<close> on assignment.
\<close>

record 'a output_type =
  of_float32 :: "float32 \<Rightarrow> 'a"
  of_pcm8 :: "uint8_t \<Rightarrow> 'a"
  of_pcm16 :: "int16_t \<Rightarrow> 'a"
  of_pcm24 :: "int32_t \<Rightarrow> 'a"
  of_pcm32 :: "int32_t \<Rightarrow> 'a"

text \<open>
  \<^verbatim>\<open>T = int32_t\<close>.  \<^verbatim>\<open>convert_float_to_int32\<close> works on a float read from the file; it
  is a parameter.
\<close>

definition output_type_int32 :: "(float32 \<Rightarrow> int32_t) \<Rightarrow> int32_t output_type" where
  "output_type_int32 convert_float_to_int32 =
     \<lparr>of_float32 = convert_float_to_int32, of_pcm8 = convert_uint8_to_int32,
      of_pcm16 = convert_int16_to_int32,
      of_pcm24 = (\<lambda>x. word_of_int (truncate_float (convert_int32_to_float x))),
      of_pcm32 = (\<lambda>x. x)\<rparr>"

definition WavReader_read ::
  "'a output_type \<Rightarrow> nat \<Rightarrow> WavReader \<Rightarrow> error + ('a list list \<times> WavReader)" where
  "WavReader_read T count r =
     (case format (r_config r) of
        FLOAT \<Rightarrow>
          and_then (read_samples 4 (\<lambda>bs. Float32 (word_of_bytes bs)) count r) (\<lambda>(samples, r').
          and_then (convert_samples (of_float32 T) samples) (\<lambda>out. Inr (out, r')))
      | PCM \<Rightarrow>
          (case bitDepth (r_config r) of
             BIT_DEPTH_8 \<Rightarrow>
               and_then (read_samples 1 word_of_bytes count r) (\<lambda>(samples, r').
               and_then (convert_samples (of_pcm8 T) samples) (\<lambda>out. Inr (out, r')))
           | BIT_DEPTH_16 \<Rightarrow>
               and_then (read_samples 2 word_of_bytes count r) (\<lambda>(samples, r').
               and_then (convert_samples (of_pcm16 T) samples) (\<lambda>out. Inr (out, r')))
           | BIT_DEPTH_24 \<Rightarrow>
               (let nc = unat (numChannels (r_config r));
                    (interleavedSamples, r') = read_raw_samples (count * nc * 3) r;
                    samples = map (\<lambda>j. map (\<lambda>i. pcm24_sample interleavedSamples nc i j)
                                          [0..<count]) [0..<nc]
                in and_then (convert_samples (of_pcm24 T) samples) (\<lambda>out. Inr (out, r')))
           | BIT_DEPTH_32 \<Rightarrow>
               and_then (read_samples 4 word_of_bytes count r) (\<lambda>(samples, r').
               and_then (convert_samples (of_pcm32 T) samples) (\<lambda>out. Inr (out, r')))))"

subsection \<open>The header as the specification describes it\<close>

text \<open>
  A RIFF chunk: a four-byte id, the payload size as a little-endian 32-bit value, the
  payload, and a padding byte after a payload of odd size.
\<close>

definition riff_chunk :: "byte list \<Rightarrow> byte list \<Rightarrow> byte list" where
  "riff_chunk ident payload =
     ident @ le32 (of_nat (length payload)) @ payload @ (if odd (length payload) then [0] else [])"

text \<open>The sixteen bytes of the canonical fmt chunk.\<close>

definition fmt_payload ::
  "16 word \<Rightarrow> 16 word \<Rightarrow> 32 word \<Rightarrow> 32 word \<Rightarrow> 16 word \<Rightarrow> 16 word \<Rightarrow> byte list" where
  "fmt_payload audioFormat numChannels' sampleRate' byteRate blockAlign' bitDepth' =
     le16 audioFormat @ le16 numChannels' @ le32 sampleRate' @ le32 byteRate
     @ le16 blockAlign' @ le16 bitDepth'"

text \<open>
  The field values the specification supports: a format tag of 1 or 3, at least one
  channel, a bit depth of 8, 16, 24 or 32, a sample rate of the enumerated set, and 32
  bits when the format is FLOAT.
\<close>

definition fmt_supported :: "16 word \<Rightarrow> 16 word \<Rightarrow> 32 word \<Rightarrow> 16 word \<Rightarrow> bool" where
  "fmt_supported audioFormat numChannels' sampleRate' bitDepth' \<longleftrightarrow>
     audioFormat \<in> {1, 3} \<and> numChannels' \<noteq> 0 \<and> bitDepth' \<in> {8, 16, 24, 32}
     \<and> sampleRate' \<in> {8000, 11025, 16000, 22050, 32000, 44100, 48000, 96000, 176400,
                        192000, 352800, 384000}
     \<and> \<not> (audioFormat = 3 \<and> bitDepth' \<noteq> 32)"

text \<open>
  A chunk the scan has to skip: an id of four bytes that is neither \<^verbatim>\<open>"fmt "\<close> nor
  \<^verbatim>\<open>"data"\<close>, with a payload whose size and padding fit the 32-bit size arithmetic.
\<close>

definition skippable :: "byte list \<times> byte list \<Rightarrow> bool" where
  "skippable c \<longleftrightarrow>
     length (fst c) = 4 \<and> fst c \<noteq> bytes_of ''fmt '' \<and> fst c \<noteq> bytes_of ''data''
     \<and> length (snd c) < 2 ^ 32 - 1"

definition riff_chunks :: "(byte list \<times> byte list) list \<Rightarrow> byte list" where
  "riff_chunks cs = concat (map (\<lambda>c. riff_chunk (fst c) (snd c)) cs)"

section \<open>Facts about the sample types\<close>

lemma uint8_bounds: "0 \<le> uint (s :: uint8_t)" "uint s < 256"
  using uint_lt2p [of s] by simp_all

lemma sint16_bounds: "- 32768 \<le> sint (s :: int16_t)" "sint s < 32768"
  using sint_ge [of s] sint_lt [of s] by simp_all

lemma sint32_bounds: "- 2147483648 \<le> sint (s :: int32_t)" "sint s < 2147483648"
  using sint_ge [of s] sint_lt [of s] by simp_all

lemma sint32_of_int:
  "- 2147483648 \<le> k \<Longrightarrow> k < 2147483648 \<Longrightarrow> sint (word_of_int k :: int32_t) = k"
  by (simp add: sint_sbintrunc' signed_take_bit_int_eq_self)

lemma sint16_of_int:
  "- 32768 \<le> k \<Longrightarrow> k < 32768 \<Longrightarrow> sint (word_of_int k :: int16_t) = k"
  by (simp add: sint_sbintrunc' signed_take_bit_int_eq_self)

lemma uint32_of_int:
  "0 \<le> k \<Longrightarrow> k < 4294967296 \<Longrightarrow> uint (word_of_int k :: int32_t) = k"
  by (simp add: uint_word_of_int_eq take_bit_int_eq_self)

lemma word_of_int_sint32: "word_of_int (sint (w :: int32_t)) = w"
  by simp

lemma sint_scast_16_32: "sint (scast (s :: int16_t) :: int32_t) = sint s"
  by (rule sint_up_scast) (simp add: is_up)

lemma sint_ucast_8_32: "sint (ucast (s :: uint8_t) :: int32_t) = uint s"
proof -
  have "signed_take_bit 31 (uint s) = uint s"
  proof (rule signed_take_bit_int_eq_self)
    show "- (2 ^ 31) \<le> uint s" by (rule order_trans [of _ 0]) simp_all
    show "uint s < 2 ^ 31" using uint8_bounds [of s] by simp
  qed
  then show ?thesis by (simp add: signed_ucast_eq)
qed

lemma sint_u8_minus_128: "sint ((ucast (s :: uint8_t) :: int32_t) - 128) = uint s - 128"
  using uint8_bounds [of s]
  by (simp add: sint_word_diff sint_ucast_8_32 signed_take_bit_int_eq_self)

lemma drop8_bounds:
  "- 128 \<le> drop_bit 8 (sint (s :: int16_t))" "drop_bit 8 (sint s) < 128"
  using sint16_bounds [of s] by (simp add: drop_bit_int_def; arith)+

lemma drop24_bounds:
  "- 128 \<le> drop_bit 24 (sint (s :: int32_t))" "drop_bit 24 (sint s) < 128"
  using sint32_bounds [of s] by (simp add: drop_bit_int_def; arith)+

lemma drop16_bounds:
  "- 32768 \<le> drop_bit 16 (sint (s :: int32_t))" "drop_bit 16 (sint s) < 32768"
  using sint32_bounds [of s] by (simp add: drop_bit_int_def; arith)+

lemma uint_plus_128:
  assumes "sint (w :: int32_t) = k" "- 128 \<le> k" "k < 128"
  shows "uint (w + 128) = k + 128"
proof -
  have "w + 128 = word_of_int (sint w) + word_of_int 128"
    by (simp only: word_of_int_sint32 word_of_int_numeral)
  also have "\<dots> = word_of_int (k + 128)"
    by (simp only: wi_hom_add assms(1))
  finally have "w + 128 = word_of_int (k + 128)" .
  moreover have "uint (word_of_int (k + 128) :: int32_t) = k + 128"
    using assms(2,3) by (intro uint32_of_int) linarith+
  ultimately show ?thesis by (simp only:)
qed

lemma and_255_bounds: "0 \<le> (k::int) AND 255" "k AND 255 < 256"
  by (simp_all add: AND_upper2'')

lemma uint_ucast_and_255:
  "uint (ucast ((w :: int32_t) AND 0xFF) :: uint8_t) = uint w AND 255"
proof -
  have "uint (ucast (w AND 0xFF) :: uint8_t) = take_bit 8 (uint (w AND 0xFF))"
    by (simp add: unsigned_ucast_eq)
  also have "\<dots> = take_bit 8 (uint w AND 255)"
    by (simp add: uint_and)
  also have "\<dots> = uint w AND 255"
    using and_255_bounds [of "uint w"] by (intro take_bit_int_eq_self) simp_all
  finally show ?thesis .
qed

lemma mult_const_32:
  assumes "sint (w :: int32_t) = k"
  shows "w * word_of_int c = word_of_int (k * c)"
proof -
  have "w * word_of_int c = word_of_int (sint w) * word_of_int c"
    by (simp only: word_of_int_sint32)
  then show ?thesis by (simp only: wi_hom_mult assms)
qed

section \<open>The integer conversions compute the specified values\<close>

lemma convert_int16_to_uint8_value:
  "uint (convert_int16_to_uint8 s) = (drop_bit 8 (sint s) + 128) AND 255"
proof -
  have "sint (signed_drop_bit 8 (scast s :: int32_t)) = drop_bit 8 (sint s)"
    by (simp add: sint_signed_drop_bit_eq sint_scast_16_32)
  then have "uint (signed_drop_bit 8 (scast s :: int32_t) + 128) = drop_bit 8 (sint s) + 128"
    using drop8_bounds [of s] by (intro uint_plus_128) simp_all
  then show ?thesis
    by (simp add: convert_int16_to_uint8_def uint_ucast_and_255)
qed

lemma convert_int32_to_uint8_value:
  "uint (convert_int32_to_uint8 s) = (drop_bit 24 (sint s) + 128) AND 255"
proof -
  have "sint (signed_drop_bit 24 s) = drop_bit 24 (sint s)"
    by (simp add: sint_signed_drop_bit_eq)
  then have "uint (signed_drop_bit 24 s + 128) = drop_bit 24 (sint s) + 128"
    using drop24_bounds [of s] by (intro uint_plus_128) simp_all
  then show ?thesis
    by (simp add: convert_int32_to_uint8_def uint_ucast_and_255)
qed

lemma convert_uint8_to_int16_word:
  "convert_uint8_to_int16 s = word_of_int ((uint s - 128) * 256)"
proof -
  have "((ucast s :: int32_t) - 128) * word_of_int 256 = word_of_int ((uint s - 128) * 256)"
    by (intro mult_const_32 sint_u8_minus_128)
  then have eq: "((ucast s :: int32_t) - 128) * 256 = word_of_int ((uint s - 128) * 256)"
    by (simp only: word_of_int_numeral)
  show ?thesis
    unfolding convert_uint8_to_int16_def eq by (rule ucast_down_wi) (simp add: is_down)
qed

lemma convert_uint8_to_int16_value:
  "sint (convert_uint8_to_int16 s) = (uint s - 128) * 256"
  using uint8_bounds [of s]
  by (simp only: convert_uint8_to_int16_word) (intro sint16_of_int; simp)

lemma convert_int32_to_int16_word:
  "convert_int32_to_int16 s = word_of_int (drop_bit 16 (sint s))"
proof -
  have "signed_drop_bit 16 s = word_of_int (sint (signed_drop_bit 16 s))"
    by (simp only: word_of_int_sint32)
  then have eq: "signed_drop_bit 16 s = word_of_int (drop_bit 16 (sint s))"
    by (simp only: sint_signed_drop_bit_eq)
  show ?thesis
    unfolding convert_int32_to_int16_def eq by (rule ucast_down_wi) (simp add: is_down)
qed

lemma convert_int32_to_int16_value:
  "sint (convert_int32_to_int16 s) = drop_bit 16 (sint s)"
  using drop16_bounds [of s]
  by (simp only: convert_int32_to_int16_word) (intro sint16_of_int; simp)

lemma convert_uint8_to_int24_word:
  "convert_uint8_to_int24 s = word_of_int ((uint s - 128) * 65536)"
proof -
  have "((ucast s :: int32_t) - 128) * word_of_int 65536 = word_of_int ((uint s - 128) * 65536)"
    by (intro mult_const_32 sint_u8_minus_128)
  then show ?thesis
    by (simp only: word_of_int_numeral convert_uint8_to_int24_def)
qed

lemma convert_uint8_to_int24_value:
  "sint (convert_uint8_to_int24 s) = (uint s - 128) * 65536"
  using uint8_bounds [of s]
  by (simp only: convert_uint8_to_int24_word) (intro sint32_of_int; simp)

lemma convert_int16_to_int24_word:
  "convert_int16_to_int24 s = word_of_int (sint s * 256)"
proof -
  have "(scast s :: int32_t) * word_of_int 256 = word_of_int (sint s * 256)"
    by (intro mult_const_32 sint_scast_16_32)
  then show ?thesis
    by (simp add: convert_int16_to_int24_def push_bit_eq_mult)
qed

lemma convert_int16_to_int24_value:
  "sint (convert_int16_to_int24 s) = push_bit 8 (sint s)"
proof -
  have "sint (word_of_int (sint s * 256) :: int32_t) = sint s * 256"
    using sint16_bounds [of s] by (intro sint32_of_int) simp_all
  then show ?thesis
    by (simp add: convert_int16_to_int24_word push_bit_eq_mult)
qed

lemma convert_int32_to_int24_value:
  "sint (convert_int32_to_int24 s) = drop_bit 8 (sint s)"
  by (simp add: convert_int32_to_int24_def sint_signed_drop_bit_eq)

lemma convert_uint8_to_int32_word:
  "convert_uint8_to_int32 s = word_of_int ((uint s - 128) * 16777216)"
proof -
  have "((ucast s :: int32_t) - 128) * word_of_int 16777216 = word_of_int ((uint s - 128) * 16777216)"
    by (intro mult_const_32 sint_u8_minus_128)
  then show ?thesis
    by (simp add: convert_uint8_to_int32_def push_bit_eq_mult)
qed

lemma convert_uint8_to_int32_value:
  "sint (convert_uint8_to_int32 s) = push_bit 24 (uint s - 128)"
proof -
  have "sint (word_of_int ((uint s - 128) * 16777216) :: int32_t) = (uint s - 128) * 16777216"
    using uint8_bounds [of s] by (intro sint32_of_int) simp_all
  then show ?thesis
    by (simp add: convert_uint8_to_int32_word push_bit_eq_mult)
qed

lemma convert_int16_to_int32_word:
  "convert_int16_to_int32 s = word_of_int (sint s * 65536)"
proof -
  have "(scast s :: int32_t) * word_of_int 65536 = word_of_int (sint s * 65536)"
    by (intro mult_const_32 sint_scast_16_32)
  then show ?thesis
    by (simp add: convert_int16_to_int32_def push_bit_eq_mult)
qed

lemma convert_int16_to_int32_value:
  "sint (convert_int16_to_int32 s) = push_bit 16 (sint s)"
proof -
  have "sint (word_of_int (sint s * 65536) :: int32_t) = sint s * 65536"
    using sint16_bounds [of s] by (intro sint32_of_int) simp_all
  then show ?thesis
    by (simp add: convert_int16_to_int32_word push_bit_eq_mult)
qed

text \<open>
  Claim C4.  Every integer-to-integer entry of the Conversion Matrix computes the formula
  the specification gives for it, at every input of the source type: read as integers
  (\<open>uint\<close> for \<^verbatim>\<open>uint8_t\<close>, \<open>sint\<close> for the signed types), the result of the C++
  function on the sample is the specification's formula at the sample's value.  No
  intermediate result leaves the 32-bit \<^verbatim>\<open>int\<close> range and no narrowing cast loses a bit.
\<close>

theorem conversion_matrix_integer_entries:
  "uint (convert_int16_to_uint8 a) = spec_int16_to_uint8 (sint a)
   \<and> uint (convert_int32_to_uint8 b) = spec_int32_to_uint8 (sint b)
   \<and> sint (convert_uint8_to_int16 c) = spec_uint8_to_int16 (uint c)
   \<and> sint (convert_int32_to_int16 b) = spec_int32_to_int16 (sint b)
   \<and> sint (convert_uint8_to_int24 c) = spec_uint8_to_int24 (uint c)
   \<and> sint (convert_int16_to_int24 a) = spec_int16_to_int24 (sint a)
   \<and> sint (convert_int32_to_int24 b) = spec_int32_to_int24 (sint b)
   \<and> sint (convert_uint8_to_int32 c) = spec_uint8_to_int32 (uint c)
   \<and> sint (convert_int16_to_int32 a) = spec_int16_to_int32 (sint a)"
  unfolding spec_int16_to_uint8_def spec_int32_to_uint8_def spec_uint8_to_int16_def
    spec_int32_to_int16_def spec_uint8_to_int24_def spec_int16_to_int24_def
    spec_int32_to_int24_def spec_uint8_to_int32_def spec_int16_to_int32_def
  by (simp only: convert_int16_to_uint8_value convert_int32_to_uint8_value
      convert_uint8_to_int16_value convert_int32_to_int16_value
      convert_uint8_to_int24_value convert_int16_to_int24_value
      convert_int32_to_int24_value convert_uint8_to_int32_value
      convert_int16_to_int32_value simp_thms)

lemma and_255_id: "0 \<le> (k::int) \<Longrightarrow> k < 256 \<Longrightarrow> k AND 255 = k"
proof -
  assume b: "0 \<le> k" "k < 256"
  have "k AND 255 = take_bit 8 k"
    by (simp add: take_bit_eq_mask mask_eq_exp_minus_1)
  also have "\<dots> = k" using b by (intro take_bit_int_eq_self) simp_all
  finally show ?thesis .
qed

lemma roundtrip_uint8_int16: "convert_int16_to_uint8 (convert_uint8_to_int16 x) = x"
proof (rule word_uint_eqI)
  have "drop_bit 8 ((uint x - 128) * 256) = uint x - 128"
    by (simp add: drop_bit_int_def)
  moreover have "uint x AND 255 = uint x"
    using uint8_bounds [of x] by (rule and_255_id)
  ultimately show "uint (convert_int16_to_uint8 (convert_uint8_to_int16 x)) = uint x"
    by (simp add: convert_int16_to_uint8_value convert_uint8_to_int16_value)
qed

lemma roundtrip_uint8_int32: "convert_int32_to_uint8 (convert_uint8_to_int32 x) = x"
proof (rule word_uint_eqI)
  have "drop_bit 24 (push_bit 24 (uint x - 128)) = uint x - 128"
    by (simp add: drop_bit_int_def push_bit_eq_mult)
  moreover have "uint x AND 255 = uint x"
    using uint8_bounds [of x] by (rule and_255_id)
  ultimately show "uint (convert_int32_to_uint8 (convert_uint8_to_int32 x)) = uint x"
    by (simp add: convert_int32_to_uint8_value convert_uint8_to_int32_value)
qed

lemma roundtrip_int16_int32: "convert_int32_to_int16 (convert_int16_to_int32 x) = x"
proof (rule signed_word_eqI)
  have "drop_bit 16 (push_bit 16 (sint x)) = sint x"
    by (simp add: drop_bit_int_def push_bit_eq_mult)
  then show "sint (convert_int32_to_int16 (convert_int16_to_int32 x)) = sint x"
    by (simp add: convert_int32_to_int16_value convert_int16_to_int32_value)
qed

text \<open>
  Claim C10.  Widening and then narrowing along the same path gives the sample back:
  uint8 to int16 to uint8, uint8 to int32 to uint8 and
  int16 to int32 to int16 are the identity on every input.
\<close>

theorem widen_then_narrow_identity:
  "convert_int16_to_uint8 (convert_uint8_to_int16 x) = x
   \<and> convert_int32_to_uint8 (convert_uint8_to_int32 x) = x
   \<and> convert_int32_to_int16 (convert_int16_to_int32 y) = y"
  by (simp only: roundtrip_uint8_int16 roundtrip_uint8_int32 roundtrip_int16_int32 simp_thms)

section \<open>The Writer\<close>

subsection \<open>Creating a Writer\<close>

lemma WavWriter_create_None_iff:
  "WavWriter_create can_create configuration = None
     \<longleftrightarrow> \<not> can_create (filename configuration)"
  by (simp add: WavWriter_create_def open_file_def WavWriter_new_def)

text \<open>
  Claim C7 says that a configuration with format FLOAT and a bit depth other than 32 yields
  no Writer.  \<^verbatim>\<open>WavWriter::create\<close> only opens the file and writes the header: it yields no
  Writer exactly when the path cannot be opened (lemma \<open>WavWriter_create_None_iff\<close>).  At
  the configuration FLOAT with 16 bits and a path that can be opened it returns a Writer.
\<close>

theorem create_accepts_float_with_16_bit_depth:
  "WavWriter_create (\<lambda>path. True)
     \<lparr>filename = ''out.wav'', sampleRate = SAMPLE_RATE_16000, numChannels = 1,
      bitDepth = BIT_DEPTH_16, format = FLOAT, blockAlign = 0, dataChunkSize = 0\<rparr>
   \<noteq> None"
  by (simp add: WavWriter_create_def open_file_def WavWriter_new_def)

subsection \<open>The channel count of a call of write\<close>

text \<open>
  Claim C9.  A call of \<^verbatim>\<open>write\<close> with \<open>k\<close> channel pointers (\<open>samples\<close> and the \<open>k - 1\<close>
  pointers of \<open>rest\<close>) on a Writer configured for another number of channels fails its
  assertion, whatever the samples and the input type are, and leaves no Writer state
  behind: nothing was converted or written.  With \<open>k\<close> equal to the configured number of
  channels the call is the call of \<^verbatim>\<open>write_buffer\<close> on the \<open>k\<close> arrays.
\<close>

theorem write_asserts_channel_count:
  "(length rest + 1 \<noteq> unat (numChannels (m_config w))
      \<longrightarrow> WavWriter_write d count samples rest w = Inl AssertionFailed)
   \<and> (length rest + 1 = unat (numChannels (m_config w))
      \<longrightarrow> WavWriter_write d count samples rest w = write_buffer d (samples # rest) count w)"
  by (simp add: WavWriter_write_def)

theorem write_asserts_channel_count_witness:
  "WavWriter_write (data_type_int16 (\<lambda>x. Float32 0)) 1 [5] [[6]] 
      \<lparr>m_config = \<lparr>filename = ''out.wav'', sampleRate = SAMPLE_RATE_16000, numChannels = 1,
      bitDepth = BIT_DEPTH_16, format = PCM, blockAlign = 0, dataChunkSize = 0\<rparr>,
      m_fileStream = \<lparr>content = [], ppos = 0, opened = True\<rparr>, m_totalFileSize = 0\<rparr>
     = Inl AssertionFailed
   \<and> WavWriter_write (data_type_int16 (\<lambda>x. Float32 0)) 1 [5] []
      \<lparr>m_config = \<lparr>filename = ''out.wav'', sampleRate = SAMPLE_RATE_16000, numChannels = 1,
      bitDepth = BIT_DEPTH_16, format = PCM, blockAlign = 0, dataChunkSize = 0\<rparr>,
      m_fileStream = \<lparr>content = [], ppos = 0, opened = True\<rparr>, m_totalFileSize = 0\<rparr>
     = Inr \<lparr>m_config = \<lparr>filename = ''out.wav'', sampleRate = SAMPLE_RATE_16000, numChannels = 1,
      bitDepth = BIT_DEPTH_16, format = PCM, blockAlign = 0, dataChunkSize = 0\<rparr>,
      m_fileStream = \<lparr>content = [5, 0], ppos = 2, opened = True\<rparr>, m_totalFileSize = 2\<rparr>"
  using write_asserts_channel_count [of "[[6]]" "\<lparr>m_config = \<lparr>filename = ''out.wav'', sampleRate = SAMPLE_RATE_16000, numChannels = 1,
      bitDepth = BIT_DEPTH_16, format = PCM, blockAlign = 0, dataChunkSize = 0\<rparr>,
      m_fileStream = \<lparr>content = [], ppos = 0, opened = True\<rparr>, m_totalFileSize = 0\<rparr>" "data_type_int16 (\<lambda>x. Float32 0)" 1 "[5]"]
    write_asserts_channel_count [of "[]" "\<lparr>m_config = \<lparr>filename = ''out.wav'', sampleRate = SAMPLE_RATE_16000, numChannels = 1,
      bitDepth = BIT_DEPTH_16, format = PCM, blockAlign = 0, dataChunkSize = 0\<rparr>,
      m_fileStream = \<lparr>content = [], ppos = 0, opened = True\<rparr>, m_totalFileSize = 0\<rparr>" "data_type_int16 (\<lambda>x. Float32 0)" 1 "[5]"]
  by (simp add: write_buffer_def write_to_pcm16_def interleave_def and_then_def sample_at_def
      vec_load_def vec_store_def write_samples_def ofstream_write_def data_type_int16_def le16_def)

subsection \<open>The running total and the header patch\<close>

lemma for_each_length:
  assumes "for_each is body s = Inr s'"
    and "\<And>i s s'. body i s = Inr s' \<Longrightarrow> length s' = length s"
  shows "length s' = length s"
  using assms(1)
proof (induction "is" arbitrary: s)
  case Nil
  then show ?case by simp
next
  case (Cons i "is")
  then obtain s1 where s1: "body i s = Inr s1" "for_each is body s1 = Inr s'"
    by (auto split: sum.splits)
  then show ?case using Cons.IH [of s1] assms(2) [of i s s1] by simp
qed

lemma vec_store_length: "vec_store i x v = Inr v' \<Longrightarrow> length v' = length v"
  by (auto simp: vec_store_def split: if_splits)

lemma and_then_Inr: "and_then r f = Inr y \<longleftrightarrow> (\<exists>x. r = Inr x \<and> f x = Inr y)"
  by (cases r) (simp_all add: and_then_def)

lemma interleave_length:
  assumes "interleave conv zero nc sampleArrays count = Inr v"
  shows "length v = count * nc"
proof -
  have "length v = length (replicate (count * nc) zero)"
    using assms unfolding interleave_def
    by (rule for_each_length) (erule for_each_length, auto simp: and_then_Inr dest: vec_store_length)
  then show ?thesis by simp
qed

lemma pcm24_buffer_length:
  assumes "pcm24_buffer conv nc sampleArrays count = Inr v"
  shows "length v = count * nc * 3"
proof -
  have "length v = length (replicate (count * nc * 3) (0 :: uint8_t))"
    using assms unfolding pcm24_buffer_def
    by (rule for_each_length)
      (erule for_each_length, auto simp: pcm24_body_def and_then_Inr Let_def dest!: vec_store_length)
  then show ?thesis by simp
qed

lemma length_le16: "length (le16 w) = 2"
  by (simp add: le16_def)

lemma length_le32: "length (le32 w) = 4"
  by (simp add: le32_def)

lemma length_concat_le16: "length (concat (map le16 v)) = length v * 2"
  by (induction v) (simp_all add: length_le16)

lemma length_concat_le32: "length (concat (map (\<lambda>x. le32 (f x)) v)) = length v * 4"
  by (induction v) (simp_all add: length_le32)

lemma length_vec_data: "length (vec_data fs) = vec_size fs * sizeof_T fs"
  using length_concat_le32 [of "\<lambda>x. x"]
  by (cases fs) (simp_all add: length_concat_le16 length_concat_le32)

lemma write_samples_effect:
  assumes "opened (m_fileStream w)" "ppos (m_fileStream w) = length (content (m_fileStream w))"
  shows "m_config (write_samples fs flag w) = m_config w"
    and "opened (m_fileStream (write_samples fs flag w))"
    and "content (m_fileStream (write_samples fs flag w)) = content (m_fileStream w) @ vec_data fs"
    and "ppos (m_fileStream (write_samples fs flag w))
           = length (content (m_fileStream (write_samples fs flag w)))"
    and "m_totalFileSize (write_samples fs flag w)
           = m_totalFileSize w
             + of_nat (if flag then vec_size fs else vec_size fs * sizeof_T fs)"
  using assms by (simp_all add: write_samples_def ofstream_write_def Let_def)

text \<open>What one successful call of \<^verbatim>\<open>write_buffer\<close> does to the Writer.\<close>

lemma write_buffer_cases:
  assumes "write_buffer d sampleArrays count w = Inr w'"
  shows "\<exists>fs flag. w' = write_samples fs flag w
           \<and> (if flag then vec_size fs else vec_size fs * sizeof_T fs)
               = count * unat (numChannels (m_config w))
                 * stored_sample_size (format (m_config w)) (bitDepth (m_config w))
           \<and> length (vec_data fs)
               = count * unat (numChannels (m_config w))
                 * stored_sample_size (format (m_config w)) (bitDepth (m_config w))"
proof (cases "format (m_config w)")
  case FLOAT
  with assms obtain v where
    "interleave (to_float32 d) (Float32 0) (unat (numChannels (m_config w))) sampleArrays count = Inr v"
    "w' = write_samples (FloatVec v) False w"
    by (auto simp: write_buffer_def write_to_float32_def and_then_Inr split: if_splits)
  then show ?thesis using FLOAT by (auto simp: length_vec_data dest!: interleave_length intro!: exI [of _ "FloatVec v"] exI [of _ False])
next
  case PCM
  show ?thesis
  proof (cases "bitDepth (m_config w)")
    case BIT_DEPTH_8
    with PCM assms obtain v where
      "interleave (to_pcm8 d) 0 (unat (numChannels (m_config w))) sampleArrays count = Inr v"
      "w' = write_samples (U8Vec v) False w"
      by (auto simp: write_buffer_def write_to_pcm8_def and_then_Inr)
    then show ?thesis using PCM BIT_DEPTH_8
      by (auto simp: length_vec_data dest!: interleave_length intro!: exI [of _ "U8Vec v"] exI [of _ False])
  next
    case BIT_DEPTH_16
    with PCM assms obtain v where
      "interleave (to_pcm16 d) 0 (unat (numChannels (m_config w))) sampleArrays count = Inr v"
      "w' = write_samples (I16Vec v) False w"
      by (auto simp: write_buffer_def write_to_pcm16_def and_then_Inr)
    then show ?thesis using PCM BIT_DEPTH_16
      by (auto simp: length_vec_data dest!: interleave_length intro!: exI [of _ "I16Vec v"] exI [of _ False])
  next
    case BIT_DEPTH_24
    with PCM assms obtain v where
      "pcm24_buffer (to_pcm24 d) (unat (numChannels (m_config w))) sampleArrays count = Inr v"
      "w' = write_samples (U8Vec v) True w"
      by (auto simp: write_buffer_def write_to_pcm24_def and_then_Inr)
    then show ?thesis using PCM BIT_DEPTH_24
      by (auto simp: length_vec_data dest!: pcm24_buffer_length intro!: exI [of _ "U8Vec v"] exI [of _ True])
  next
    case BIT_DEPTH_32
    with PCM assms obtain v where
      "interleave (to_pcm32 d) 0 (unat (numChannels (m_config w))) sampleArrays count = Inr v"
      "w' = write_samples (I32Vec v) False w"
      by (auto simp: write_buffer_def write_to_pcm32_def and_then_Inr)
    then show ?thesis using PCM BIT_DEPTH_32
      by (auto simp: length_vec_data dest!: interleave_length intro!: exI [of _ "I32Vec v"] exI [of _ False])
  qed
qed

lemma write_effect:
  assumes "WavWriter_write d count samples rest w = Inr w'"
    and "opened (m_fileStream w)" "ppos (m_fileStream w) = length (content (m_fileStream w))"
  shows "m_config w' = m_config w"
    and "opened (m_fileStream w')"
    and "ppos (m_fileStream w') = length (content (m_fileStream w'))"
    and "length (content (m_fileStream w'))
           = length (content (m_fileStream w))
             + count * unat (numChannels (m_config w))
                 * stored_sample_size (format (m_config w)) (bitDepth (m_config w))"
    and "m_totalFileSize w'
           = m_totalFileSize w
             + of_nat (count * unat (numChannels (m_config w))
                 * stored_sample_size (format (m_config w)) (bitDepth (m_config w)))"
proof -
  from assms(1) have "write_buffer d (samples # rest) count w = Inr w'"
    by (simp add: WavWriter_write_def Let_def split: if_splits)
  then obtain fs flag where fs: "w' = write_samples fs flag w"
    "(if flag then vec_size fs else vec_size fs * sizeof_T fs)
       = count * unat (numChannels (m_config w))
         * stored_sample_size (format (m_config w)) (bitDepth (m_config w))"
    "length (vec_data fs)
       = count * unat (numChannels (m_config w))
         * stored_sample_size (format (m_config w)) (bitDepth (m_config w))"
    using write_buffer_cases by blast
  show "m_config w' = m_config w" "opened (m_fileStream w')"
    "ppos (m_fileStream w') = length (content (m_fileStream w'))"
    using fs(1) write_samples_effect [OF assms(2,3), of fs flag] by simp_all
  show "length (content (m_fileStream w'))
           = length (content (m_fileStream w))
             + count * unat (numChannels (m_config w))
                 * stored_sample_size (format (m_config w)) (bitDepth (m_config w))"
    using fs(1,3) write_samples_effect(3) [OF assms(2,3), of fs flag] by simp
  show "m_totalFileSize w'
           = m_totalFileSize w
             + of_nat (count * unat (numChannels (m_config w))
                 * stored_sample_size (format (m_config w)) (bitDepth (m_config w)))"
    using fs write_samples_effect(5) [OF assms(2,3), of fs flag] by simp
qed

lemma write_all_effect:
  assumes "write_all d calls w = Inr w'"
    and "opened (m_fileStream w)" "ppos (m_fileStream w) = length (content (m_fileStream w))"
  shows "m_config w' = m_config w
     \<and> opened (m_fileStream w')
     \<and> length (content (m_fileStream w'))
           = length (content (m_fileStream w))
             + sum_list (map fst calls) * unat (numChannels (m_config w))
                 * stored_sample_size (format (m_config w)) (bitDepth (m_config w))
     \<and> m_totalFileSize w'
           = m_totalFileSize w
             + of_nat (sum_list (map fst calls) * unat (numChannels (m_config w))
                 * stored_sample_size (format (m_config w)) (bitDepth (m_config w)))"
  using assms
proof (induction calls arbitrary: w)
  case Nil
  then show ?case by simp
next
  case (Cons c calls)
  obtain count samples rest where c: "c = (count, samples, rest)" by (cases c)
  with Cons.prems(1) obtain w1 where w1: "WavWriter_write d count samples rest w = Inr w1"
    "write_all d calls w1 = Inr w'"
    by (auto simp: and_then_Inr)
  note e = write_effect [OF w1(1) Cons.prems(2,3)]
  from Cons.IH [OF w1(2) e(2,3)] e(1,4,5) c show ?case
    by (simp add: algebra_simps)
qed

lemma create_effect:
  assumes "WavWriter_create can_create cfg = Some w"
  shows "m_config w = cfg" "opened (m_fileStream w)" "m_totalFileSize w = 0"
    "ppos (m_fileStream w) = 44" "length (content (m_fileStream w)) = 44"
  using assms
  by (auto simp: WavWriter_create_def open_file_def WavWriter_new_def WavWriter_move_def
      write_header_def Let_def ofstream_write_def le16_def le32_def bytes_of_def
      split: if_splits)

lemma close_file_idem: "close_file (close_file w) = close_file w"
  by (simp add: close_file_def Let_def ofstream_close_def finalize_header_def)

lemma close_file_closed: "\<not> opened (m_fileStream w) \<Longrightarrow> close_file w = w"
  by (simp add: close_file_def)

lemma close_file_content:
  assumes "opened (m_fileStream w)" "44 \<le> length (content (m_fileStream w))"
  shows "content (m_fileStream (close_file w))
     = take 4 (content (m_fileStream w)) @ le32 (36 + m_totalFileSize w)
       @ take 32 (drop 8 (content (m_fileStream w))) @ le32 (m_totalFileSize w)
       @ drop 44 (content (m_fileStream w))"
  using assms
  by (simp add: close_file_def Let_def ofstream_close_def finalize_header_def
      ofstream_write_def ofstream_seekp_def length_le32 take_drop)

lemma destroy_is_close: "WavWriter_destroy w = close_file w"
  by (simp add: WavWriter_destroy_def close_file_def)

lemma close_file_not_opened: "\<not> opened (m_fileStream (close_file w))"
  by (simp add: close_file_def Let_def ofstream_close_def)

text \<open>
  A Writer obtained from \<^verbatim>\<open>create\<close> and a sequence of successful calls of \<^verbatim>\<open>write\<close>, and
  not moved in between.  Closing twice is closing once, and the stream is closed
  afterwards.  The first close changes the file only at offsets 4 to 7, which receive 36
  plus the running total, and at offsets 40 to 43, which receive the running total, both
  as little-endian 32-bit values.  The running total is the Writer's 32-bit counter: the
  number of frames written, times the number of channels, times the stored sample size
  (3 for 24-bit PCM), modulo \<open>2 ^ 32\<close>; and the payload after the 44 header bytes has
  exactly that many bytes.  The destructor does what \<^verbatim>\<open>close_file\<close> does.
\<close>

lemma close_file_after_create_and_writes:
  assumes "WavWriter_create can_create cfg = Some w0"
    and "write_all d calls w0 = Inr w"
  shows "close_file (close_file w) = close_file w
     \<and> \<not> opened (m_fileStream (close_file w))
     \<and> content (m_fileStream (close_file w))
         = take 4 (content (m_fileStream w)) @ le32 (36 + m_totalFileSize w)
           @ take 32 (drop 8 (content (m_fileStream w))) @ le32 (m_totalFileSize w)
           @ drop 44 (content (m_fileStream w))
     \<and> take 4 (drop 4 (content (m_fileStream (close_file w)))) = le32 (36 + m_totalFileSize w)
     \<and> take 4 (drop 40 (content (m_fileStream (close_file w)))) = le32 (m_totalFileSize w)
     \<and> m_totalFileSize w
         = of_nat (sum_list (map fst calls) * unat (numChannels cfg)
                     * stored_sample_size (format cfg) (bitDepth cfg))
     \<and> length (content (m_fileStream w))
         = 44 + sum_list (map fst calls) * unat (numChannels cfg)
                  * stored_sample_size (format cfg) (bitDepth cfg)
     \<and> WavWriter_destroy w = close_file w"
proof -
  note c = create_effect [OF assms(1)]
  from c(4,5) have p: "ppos (m_fileStream w0) = length (content (m_fileStream w0))" by simp
  note e = write_all_effect [OF assms(2) c(2) p]
  from e c have len: "44 \<le> length (content (m_fileStream w))" and op: "opened (m_fileStream w)"
    by simp_all
  note cc = close_file_content [OF op len]
  have t4: "take 4 (drop 4 (content (m_fileStream (close_file w)))) = le32 (36 + m_totalFileSize w)"
    using len by (simp add: cc length_le32)
  have t40: "take 4 (drop 40 (content (m_fileStream (close_file w)))) = le32 (m_totalFileSize w)"
    using len by (simp add: cc length_le32)
  show ?thesis
    using e c cc t4 t40 by (simp add: close_file_idem close_file_not_opened destroy_is_close)
qed

lemma close_file_after_pcm24_write:
  "\<exists>w0 w.
     WavWriter_create (\<lambda>path. True)
       \<lparr>filename = ''pcm32-in_pcm24-out.wav'', sampleRate = SAMPLE_RATE_44100, numChannels = 1,
        bitDepth = BIT_DEPTH_24, format = PCM, blockAlign = 0, dataChunkSize = 0\<rparr> = Some w0
     \<and> write_all (data_type_int32 (\<lambda>x. Float32 0))
           [(2, [0x01020304, 0x05060708], [])] w0 = Inr w
     \<and> take 4 (drop 4 (content (m_fileStream (close_file w)))) = [42, 0, 0, 0]
     \<and> take 4 (drop 40 (content (m_fileStream (close_file w)))) = [6, 0, 0, 0]
     \<and> length (content (m_fileStream w)) = 50"
proof -
  define cfg where "cfg = \<lparr>filename = ''pcm32-in_pcm24-out.wav'', sampleRate = SAMPLE_RATE_44100,
        numChannels = 1, bitDepth = BIT_DEPTH_24, format = PCM, blockAlign = 0,
        dataChunkSize = 0\<rparr>"
  obtain w0 where w0: "WavWriter_create (\<lambda>path. True) cfg = Some w0"
    by (simp add: WavWriter_create_def open_file_def)
  note c = create_effect [OF w0]
  have "\<exists>w. write_all (data_type_int32 (\<lambda>x. Float32 0)) [(2, [0x01020304, 0x05060708], [])] w0 = Inr w"
    using c(1)
    by (simp add: cfg_def WavWriter_write_def write_buffer_def write_to_pcm24_def
      pcm24_buffer_def pcm24_body_def pcm24_index_def and_then_def sample_at_def vec_load_def vec_store_def
      Let_def numeral_2_eq_2 data_type_int32_def)
  then obtain w where w:
    "write_all (data_type_int32 (\<lambda>x. Float32 0)) [(2, [0x01020304, 0x05060708], [])] w0 = Inr w"
    by blast
  from close_file_after_create_and_writes [OF w0 w] have
    "take 4 (drop 4 (content (m_fileStream (close_file w)))) = [42, 0, 0, 0]"
    "take 4 (drop 40 (content (m_fileStream (close_file w)))) = [6, 0, 0, 0]"
    "length (content (m_fileStream w)) = 50"
    by (simp_all add: cfg_def le32_def)
  with w0 w show ?thesis unfolding cfg_def by blast
qed

subsection \<open>Closing a Writer that was moved\<close>

text \<open>One-channel 16-bit PCM: what \<^verbatim>\<open>create\<close> and a call of \<^verbatim>\<open>write\<close> do.\<close>

lemma create_pcm16_mono:
  "WavWriter_create (\<lambda>path. True)
       \<lparr>filename = ''out.wav'', sampleRate = SAMPLE_RATE_44100, numChannels = 1,
        bitDepth = BIT_DEPTH_16, format = PCM, blockAlign = 0, dataChunkSize = 0\<rparr>
  = Some \<lparr>m_config = \<lparr>filename = ''out.wav'', sampleRate = SAMPLE_RATE_44100, numChannels = 1,
        bitDepth = BIT_DEPTH_16, format = PCM, blockAlign = 0, dataChunkSize = 0\<rparr>,
      m_fileStream = \<lparr>content = bytes_of ''RIFF'' @ le32 0 @ bytes_of ''WAVE''
        @ bytes_of ''fmt '' @ le32 16 @ fmt_payload 1 1 44100 88200 2 16
        @ bytes_of ''data'' @ le32 0, ppos = 44, opened = True\<rparr>,
      m_totalFileSize = 0\<rparr>"
  by (simp add: WavWriter_create_def open_file_def WavWriter_new_def WavWriter_move_def
      write_header_def ofstream_write_def Let_def fmt_payload_def length_le32 length_le16 bytes_of_def)

lemma write_pcm16_mono_2:
  assumes "numChannels cfg = 1" "format cfg = PCM" "bitDepth cfg = BIT_DEPTH_16"
  shows "WavWriter_write (data_type_int16 f) 2 [a, b] []
     \<lparr>m_config = cfg, m_fileStream = \<lparr>content = c, ppos = length c, opened = True\<rparr>,
      m_totalFileSize = t\<rparr>
   = Inr \<lparr>m_config = cfg,
      m_fileStream = \<lparr>content = c @ le16 a @ le16 b, ppos = length c + 4, opened = True\<rparr>,
      m_totalFileSize = t + 4\<rparr>"
  using assms
  by (simp add: WavWriter_write_def write_buffer_def write_to_pcm16_def interleave_def
      and_then_def sample_at_def vec_load_def vec_store_def write_samples_def
      Let_def numeral_2_eq_2 data_type_int16_def ofstream_write_def length_le16)

lemma write_pcm16_mono_1:
  assumes "numChannels cfg = 1" "format cfg = PCM" "bitDepth cfg = BIT_DEPTH_16"
  shows "WavWriter_write (data_type_int16 f) 1 [a] []
     \<lparr>m_config = cfg, m_fileStream = \<lparr>content = c, ppos = length c, opened = True\<rparr>,
      m_totalFileSize = t\<rparr>
   = Inr \<lparr>m_config = cfg,
      m_fileStream = \<lparr>content = c @ le16 a, ppos = length c + 2, opened = True\<rparr>,
      m_totalFileSize = t + 2\<rparr>"
  using assms
  by (simp add: WavWriter_write_def write_buffer_def write_to_pcm16_def interleave_def
      and_then_def sample_at_def vec_load_def vec_store_def write_samples_def
      Let_def data_type_int16_def ofstream_write_def length_le16)

text \<open>
  Claim C5 says that, for every Writer, \<^verbatim>\<open>close\<close> is idempotent, that the first call
  writes 36 plus the running byte total of all writes at offset 4 and that total at
  offset 40 (3 bytes a sample for 24-bit PCM, the size of the sample otherwise), and that
  destruction does the same.  Idempotence and the destructor are as claimed for every
  Writer (lemmas \<open>close_file_idem\<close> and \<open>destroy_is_close\<close>), and so are the two sizes for a
  Writer that was not moved after a write (lemma \<open>close_file_after_create_and_writes\<close>).
  The move constructor and the move assignment operator take the configuration and the
  stream of the other Writer and leave its \<^verbatim>\<open>m_totalFileSize\<close> behind, so a Writer moved
  after a write counts from 0 again.  Below, a one-channel 16-bit PCM Writer writes two
  frames, is moved, writes one frame and is closed: the file holds six payload bytes, and
  its header declares a data size of 2 and a RIFF size of 38, not 6 and 42.
\<close>

theorem moved_writer_close_patches_stale_total:
  "map_option (\<lambda>w0.
     and_then (WavWriter_write (data_type_int16 (\<lambda>x. Float32 0)) 2 [1, 2] [] w0) (\<lambda>w1.
     and_then (WavWriter_write (data_type_int16 (\<lambda>x. Float32 0)) 1 [3] [] (WavWriter_move w1)) (\<lambda>w2.
       Inr (content (m_fileStream (close_file w2))))))
     (WavWriter_create (\<lambda>path. True)
       \<lparr>filename = ''out.wav'', sampleRate = SAMPLE_RATE_44100, numChannels = 1,
        bitDepth = BIT_DEPTH_16, format = PCM, blockAlign = 0, dataChunkSize = 0\<rparr>)
   = Some (Inr
       (bytes_of ''RIFF'' @ le32 38 @ bytes_of ''WAVE''
        @ bytes_of ''fmt '' @ le32 16 @ fmt_payload 1 1 44100 88200 2 16
        @ bytes_of ''data'' @ le32 2 @ le16 1 @ le16 2 @ le16 3))"
proof -
  let ?cfg = "\<lparr>filename = ''out.wav'', sampleRate = SAMPLE_RATE_44100, numChannels = 1,
        bitDepth = BIT_DEPTH_16, format = PCM, blockAlign = 0, dataChunkSize = 0\<rparr>"
  let ?hdr = "bytes_of ''RIFF'' @ le32 0 @ bytes_of ''WAVE''
        @ bytes_of ''fmt '' @ le32 16 @ fmt_payload 1 1 44100 88200 2 16
        @ bytes_of ''data'' @ le32 0"
  have len: "length ?hdr = 44"
    by (simp add: bytes_of_def length_le32 length_le16 fmt_payload_def)
  let ?w0 = "\<lparr>m_config = ?cfg, m_fileStream = \<lparr>content = ?hdr, ppos = length ?hdr, opened = True\<rparr>,
      m_totalFileSize = 0\<rparr>"
  let ?w1 = "\<lparr>m_config = ?cfg,
      m_fileStream = \<lparr>content = ?hdr @ le16 1 @ le16 2, ppos = length ?hdr + 4, opened = True\<rparr>,
      m_totalFileSize = 0 + 4\<rparr>"
  let ?w1' = "\<lparr>m_config = ?cfg,
      m_fileStream = \<lparr>content = ?hdr @ le16 1 @ le16 2, ppos = length (?hdr @ le16 1 @ le16 2),
                      opened = True\<rparr>,
      m_totalFileSize = 0\<rparr>"
  let ?w2 = "\<lparr>m_config = ?cfg,
      m_fileStream = \<lparr>content = (?hdr @ le16 1 @ le16 2) @ le16 3,
                      ppos = length (?hdr @ le16 1 @ le16 2) + 2, opened = True\<rparr>,
      m_totalFileSize = 0 + 2\<rparr>"
  have 0: "WavWriter_create (\<lambda>path. True) ?cfg = Some ?w0"
    unfolding len by (rule create_pcm16_mono)
  have 1: "WavWriter_write (data_type_int16 (\<lambda>x. Float32 0)) 2 [1, 2] [] ?w0 = Inr ?w1"
    by (rule write_pcm16_mono_2) simp_all
  have m: "WavWriter_move ?w1 = ?w1'"
    by (simp add: WavWriter_move_def length_le16)
  have 2: "WavWriter_write (data_type_int16 (\<lambda>x. Float32 0)) 1 [3] [] ?w1' = Inr ?w2"
    by (rule write_pcm16_mono_1) simp_all
  have 3: "content (m_fileStream (close_file ?w2))
      = bytes_of ''RIFF'' @ le32 38 @ bytes_of ''WAVE''
        @ bytes_of ''fmt '' @ le32 16 @ fmt_payload 1 1 44100 88200 2 16
        @ bytes_of ''data'' @ le32 2 @ le16 1 @ le16 2 @ le16 3"
    by (subst close_file_content)
      (simp_all add: bytes_of_def length_le32 length_le16 fmt_payload_def)
  show ?thesis
    unfolding 0 option.map and_then_def 1 sum.case m 2 3 ..
qed

subsection \<open>The 24-bit payload\<close>

lemma for_each_error_kind:
  assumes "for_each is body s = Inl e"
    and "\<And>i s e. body i s = Inl e \<Longrightarrow> e = OutOfBounds"
  shows "e = OutOfBounds"
  using assms(1)
proof (induction "is" arbitrary: s)
  case Nil
  then show ?case by simp
next
  case (Cons i "is")
  show ?case
  proof (cases "body i s")
    case (Inl e')
    with Cons.prems have "e' = e" by simp
    with Inl assms(2) show ?thesis by blast
  next
    case (Inr s1)
    with Cons.prems have "for_each is body s1 = Inl e" by simp
    then show ?thesis by (rule Cons.IH)
  qed
qed

lemma for_each_visits:
  assumes "for_each is body s = Inr s'"
    and "i \<in> set is"
    and "\<And>j t t'. body j t = Inr t' \<Longrightarrow> length t' = length t"
  shows "\<exists>t t'. body i t = Inr t' \<and> length t = length s"
  using assms(1,2)
proof (induction "is" arbitrary: s)
  case Nil
  then show ?case by simp
next
  case (Cons j "is")
  from Cons.prems(1) obtain s1 where s1: "body j s = Inr s1" "for_each is body s1 = Inr s'"
    by (auto split: sum.splits)
  show ?case
  proof (cases "i = j")
    case True
    with s1(1) show ?thesis by blast
  next
    case False
    with Cons.prems(2) have "i \<in> set is" by simp
    from Cons.IH [OF s1(2) this] assms(3) [OF s1(1)] show ?thesis by simp
  qed
qed

lemma vec_store_error: "vec_store i x v = Inl e \<Longrightarrow> e = OutOfBounds"
  by (auto simp: vec_store_def split: if_splits)

lemma vec_load_error: "vec_load v i = Inl e \<Longrightarrow> e = OutOfBounds"
  by (auto simp: vec_load_def split: if_splits)

lemma and_then_Inl: "and_then r f = Inl e \<longleftrightarrow> r = Inl e \<or> (\<exists>x. r = Inr x \<and> f x = Inl e)"
  by (cases r) (simp_all add: and_then_def)

lemma sample_at_error: "sample_at a ch i = Inl e \<Longrightarrow> e = OutOfBounds"
  by (auto simp: sample_at_def and_then_Inl dest: vec_load_error)

lemma pcm24_buffer_alt:
  "pcm24_buffer conv nc sampleArrays count =
     for_each [0..<count] (\<lambda>i. for_each [0..<nc] (pcm24_body conv nc sampleArrays i))
       (replicate (count * nc * 3) 0)"
  by (rule pcm24_buffer_def)

lemma pcm24_body_length:
  "pcm24_body conv nc a i ch v = Inr v' \<Longrightarrow> length v' = length v"
  by (auto simp: pcm24_body_def and_then_Inr Let_def dest!: vec_store_length)

lemma pcm24_body_error:
  "pcm24_body conv nc a i ch v = Inl e \<Longrightarrow> e = OutOfBounds"
  by (auto simp: pcm24_body_def and_then_Inl Let_def dest: vec_store_error sample_at_error)

lemma pcm24_body_third_store:
  assumes "pcm24_body conv nc a i ch v = Inr v'"
  shows "pcm24_index nc i ch 2 < length v"
  using assms
  by (auto simp: pcm24_body_def and_then_Inr Let_def vec_store_def split: if_splits)

lemma pcm24_last_index:
  assumes "2 \<le> nc" "1 \<le> count"
  shows "count * nc * 3 \<le> pcm24_index nc (count - 1) (nc - 1) 2"
proof -
  define M where "M = count * nc"
  have M: "1 \<le> M" using assms by (simp add: M_def)
  have "(count - 1) * nc + (nc - 1) = M - 1"
    using assms by (cases count) (simp_all add: M_def)
  then have idx: "pcm24_index nc (count - 1) (nc - 1) 2 = ((M - 1) * 3 + 2) * nc + (nc - 1)"
    by (simp add: pcm24_index_def)
  have "((M - 1) * 3 + 2) * 2 \<le> ((M - 1) * 3 + 2) * nc"
    using assms(1) by (intro mult_le_mono2)
  moreover have "M * 3 \<le> ((M - 1) * 3 + 2) * 2" using M by simp
  ultimately show ?thesis unfolding idx M_def [symmetric] by linarith
qed

lemma pcm24_buffer_multichannel:
  assumes "2 \<le> nc" "1 \<le> count"
  shows "pcm24_buffer conv nc sampleArrays count = Inl OutOfBounds"
proof (cases "pcm24_buffer conv nc sampleArrays count")
  case (Inl e)
  then have "e = OutOfBounds"
    unfolding pcm24_buffer_alt
    by (rule for_each_error_kind) (erule for_each_error_kind, erule pcm24_body_error)
  with Inl show ?thesis by simp
next
  case (Inr v)
  have inner_len: "\<And>j t t'. for_each [0..<nc] (pcm24_body conv nc sampleArrays j) t = Inr t'
      \<Longrightarrow> length t' = length t"
    by (erule for_each_length) (erule pcm24_body_length)
  have "\<exists>t t'. (\<lambda>i. for_each [0..<nc] (pcm24_body conv nc sampleArrays i)) (count - 1) t = Inr t'
      \<and> length t = length (replicate (count * nc * 3) (0 :: uint8_t))"
  proof (rule for_each_visits)
    show "for_each [0..<count] (\<lambda>i. for_each [0..<nc] (pcm24_body conv nc sampleArrays i))
       (replicate (count * nc * 3) 0) = Inr v"
      using Inr unfolding pcm24_buffer_alt .
    show "count - 1 \<in> set [0..<count]" using assms(2) by simp
    fix j t t'
    assume "for_each [0..<nc] (pcm24_body conv nc sampleArrays j) t = Inr t'"
    then show "length t' = length t" by (rule inner_len)
  qed
  then obtain t t' where t:
    "for_each [0..<nc] (pcm24_body conv nc sampleArrays (count - 1)) t = Inr t'"
    "length t = count * nc * 3"
    by auto
  have "nc - 1 \<in> set [0..<nc]" using assms(1) by simp
  with t(1) have "\<exists>u u'. pcm24_body conv nc sampleArrays (count - 1) (nc - 1) u = Inr u'
      \<and> length u = length t"
    by (rule for_each_visits) (erule pcm24_body_length)
  then obtain u u' where u: "pcm24_body conv nc sampleArrays (count - 1) (nc - 1) u = Inr u'"
    "length u = length t"
    by blast
  from pcm24_body_third_store [OF u(1)] u(2) t(2) pcm24_last_index [OF assms]
  show ?thesis by simp
qed

lemma for_each_append:
  "for_each (xs @ ys) body s = and_then (for_each xs body s) (for_each ys body)"
  by (induction xs arbitrary: s) (simp_all add: and_then_def split: sum.splits)

lemma for_each_single: "for_each [i] body s = body i s"
  by (simp split: sum.splits)

lemma length_int24_bytes: "length (int24_bytes x) = 3"
  by (simp add: int24_bytes_def)

lemma length_mono_payload:
  "length (concat (map (\<lambda>i. int24_bytes (f i)) [0..<n])) = n * 3"
  by (induction n) (simp_all add: length_int24_bytes)

lemma pcm24_body_mono:
  assumes "i < length samples" "length A = i * 3"
  shows "pcm24_body conv 1 [samples] i 0 (A @ 0 # 0 # 0 # R)
     = Inr (A @ int24_bytes (conv (samples ! i)) @ R)"
  using assms
  by (simp add: pcm24_body_def pcm24_index_def sample_at_def vec_load_def vec_store_def
      and_then_def Let_def int24_bytes_def list_update_append)

lemma for_each_upt_1: "for_each [0..<1] body = body 0"
  by (rule ext) (simp split: sum.splits)

lemma pcm24_mono_prefix:
  assumes "count \<le> length samples" "n \<le> count"
  shows "for_each [0..<n] (\<lambda>i. pcm24_body conv 1 [samples] i 0) (replicate (count * 3) 0)
     = Inr (concat (map (\<lambda>i. int24_bytes (conv (samples ! i))) [0..<n])
             @ replicate ((count - n) * 3) 0)"
  using assms(2)
proof (induction n)
  case 0
  then show ?case by simp
next
  case (Suc n)
  let ?A = "concat (map (\<lambda>i. int24_bytes (conv (samples ! i))) [0..<n])"
  let ?B = "\<lambda>i. pcm24_body conv 1 [samples] i 0"
  have rep: "replicate ((count - n) * 3) (0 :: uint8_t)
      = 0 # 0 # 0 # replicate ((count - Suc n) * 3) 0"
  proof -
    from Suc.prems obtain m where m: "count - n = Suc m" by (cases "count - n") simp_all
    then have "count - Suc n = m" by simp
    with m show ?thesis by (simp add: numeral_3_eq_3)
  qed
  have n: "n < length samples" using Suc.prems assms(1) by simp
  have ih: "for_each [0..<n] ?B (replicate (count * 3) 0)
      = Inr (?A @ replicate ((count - n) * 3) 0)"
    using Suc.IH Suc.prems by simp
  have "for_each [0..<Suc n] ?B (replicate (count * 3) 0)
      = and_then (for_each [0..<n] ?B (replicate (count * 3) 0)) (for_each [n] ?B)"
    by (simp only: upt_Suc_append [OF le0] for_each_append)
  also have "\<dots> = ?B n (?A @ replicate ((count - n) * 3) 0)"
    by (simp only: ih and_then_def sum.case for_each_single)
  also have "\<dots> = Inr (?A @ int24_bytes (conv (samples ! n)) @ replicate ((count - Suc n) * 3) 0)"
    unfolding rep by (rule pcm24_body_mono [OF n]) (rule length_mono_payload)
  finally show ?case by simp
qed

lemma spec_pcm24_payload_mono:
  "spec_pcm24_payload conv 1 [samples] count
     = concat (map (\<lambda>i. int24_bytes (conv (samples ! i))) [0..<count])"
  by (simp add: spec_pcm24_payload_def)

lemma pcm24_buffer_mono:
  assumes "count \<le> length samples"
  shows "pcm24_buffer conv 1 [samples] count = Inr (spec_pcm24_payload conv 1 [samples] count)"
  using pcm24_mono_prefix [OF assms order_refl, of conv]
  by (simp add: pcm24_buffer_def spec_pcm24_payload_mono for_each_upt_1 del: One_nat_def)

text \<open>
  With one channel the writer stores the 24-bit payload the specification describes.
\<close>

lemma write_pcm24_mono:
  assumes "format (m_config w) = PCM" "bitDepth (m_config w) = BIT_DEPTH_24"
    and "numChannels (m_config w) = 1" "count \<le> length samples"
  shows "WavWriter_write d count samples [] w
     = Inr (write_samples (U8Vec (spec_pcm24_payload (to_pcm24 d) 1 [samples] count)) True w)"
  using assms
  by (simp add: WavWriter_write_def write_buffer_def write_to_pcm24_def
      pcm24_buffer_mono [unfolded One_nat_def] and_then_def)

text \<open>
  Claim C1 says that for every 24-bit PCM configuration the three bytes of the sample of
  frame \<open>i\<close> and channel \<open>ch\<close> are placed at \<open>(i * numChannels + ch) * 3 + k\<close> in a buffer
  of \<open>frameCount * numChannels * 3\<close> bytes.  With two or more channels and at least one
  frame the source's index \<open>((i * numChannels + ch) * 3 + k) * numChannels + ch\<close> leaves
  that buffer: the call stores outside the vector and writes nothing to the file.
\<close>

theorem pcm24_multichannel_write_out_of_bounds:
  assumes "format (m_config w) = PCM" "bitDepth (m_config w) = BIT_DEPTH_24"
    and "2 \<le> unat (numChannels (m_config w))"
    and "length rest + 1 = unat (numChannels (m_config w))"
    and "1 \<le> count"
  shows "WavWriter_write d count samples rest w = Inl OutOfBounds"
  using assms
  by (simp add: WavWriter_write_def write_buffer_def write_to_pcm24_def
      pcm24_buffer_multichannel and_then_def)

theorem pcm24_stereo_write_out_of_bounds:
  "WavWriter_write (data_type_int32 (\<lambda>x. Float32 0)) 1 [0x01020304] [[0x05060708]]
     \<lparr>m_config = \<lparr>filename = ''out.wav'', sampleRate = SAMPLE_RATE_44100, numChannels = 2,
                  bitDepth = BIT_DEPTH_24, format = PCM, blockAlign = 0, dataChunkSize = 0\<rparr>,
      m_fileStream = \<lparr>content = [], ppos = 0, opened = True\<rparr>, m_totalFileSize = 0\<rparr>
   = Inl OutOfBounds"
  by (rule pcm24_multichannel_write_out_of_bounds) simp_all
section \<open>The Reader: parsing the header\<close>

lemma word_of_bytes_le16: "word_of_bytes (le16 w) = w"
  unfolding word_of_bytes_def le16_def
  by (rule bit_word_eqI) (auto simp: bit_simps)

lemma word_of_bytes_le32: "word_of_bytes (le32 w) = (w :: 32 word)"
  unfolding word_of_bytes_def le32_def
proof (rule bit_word_eqI)
  fix n
  assume "n < LENGTH(32)"
  then have n: "n < 32" by simp
  consider "n < 8" | "8 \<le> n" "n < 16" | "16 \<le> n" "n < 24" | "24 \<le> n" by linarith
  then show "bit (foldr (\<lambda>b acc. ucast b OR push_bit 8 acc)
                  ([ucast w, ucast (drop_bit 8 w), ucast (drop_bit 16 w), ucast (drop_bit 24 w)]
                    :: 8 word list)
                  (0 :: 32 word)) n = bit w n"
    using n by cases (auto simp: bit_simps)
qed

lemma ifstream_read_prefix:
  assumes "\<not> failbit s" "unread s = a @ b" "length a = n"
  shows "ifstream_read n s = (a, \<lparr>unread = b, failbit = False, gcount = n\<rparr>)"
  using assms by (simp add: ifstream_read_def)

lemma read_u16_prefix:
  assumes "\<not> failbit s" "unread s = le16 w @ b"
  shows "read_u16 s = (w, \<lparr>unread = b, failbit = False, gcount = 2\<rparr>)"
  using ifstream_read_prefix [OF assms, of 2]
  by (simp add: read_u16_def word_of_bytes_le16 length_le16)

lemma read_u32_prefix:
  assumes "\<not> failbit s" "unread s = le32 w @ b"
  shows "read_u32 s = (w, \<lparr>unread = b, failbit = False, gcount = 4\<rparr>)"
  using ifstream_read_prefix [OF assms, of 4]
  by (simp add: read_u32_def word_of_bytes_le32 length_le32)

lemma read_fmt_fields_prefix:
  assumes "\<not> failbit s"
    and "unread s = fmt_payload af nc sr br ba bd @ tail"
  shows "fst (read_fmt_fields subchunkSize s)
           = \<lparr>f_audioFormat = af, f_numChannels = nc, f_sampleRate = sr, f_byteRate = br,
              f_blockAlign = ba, f_bitDepth = bd\<rparr>"
    and "snd (read_fmt_fields subchunkSize s)
           = \<lparr>unread = drop (unat subchunkSize - 16) tail, failbit = False, gcount = 2\<rparr>"
proof -
  let ?s1 = "\<lparr>unread = le16 nc @ le32 sr @ le32 br @ le16 ba @ le16 bd @ tail,
              failbit = False, gcount = 2\<rparr>"
  let ?s2 = "\<lparr>unread = le32 sr @ le32 br @ le16 ba @ le16 bd @ tail,
              failbit = False, gcount = 2\<rparr>"
  let ?s3 = "\<lparr>unread = le32 br @ le16 ba @ le16 bd @ tail, failbit = False, gcount = 4\<rparr>"
  let ?s4 = "\<lparr>unread = le16 ba @ le16 bd @ tail, failbit = False, gcount = 4\<rparr>"
  let ?s5 = "\<lparr>unread = le16 bd @ tail, failbit = False, gcount = 2\<rparr>"
  let ?s6 = "\<lparr>unread = tail, failbit = False, gcount = 2\<rparr>"
  have 1: "read_u16 s = (af, ?s1)"
    using assms by (intro read_u16_prefix) (simp_all add: fmt_payload_def)
  have 2: "read_u16 ?s1 = (nc, ?s2)" by (intro read_u16_prefix) simp_all
  have 3: "read_u32 ?s2 = (sr, ?s3)" by (intro read_u32_prefix) simp_all
  have 4: "read_u32 ?s3 = (br, ?s4)" by (intro read_u32_prefix) simp_all
  have 5: "read_u16 ?s4 = (ba, ?s5)" by (intro read_u16_prefix) simp_all
  have 6: "read_u16 ?s5 = (bd, ?s6)" by (intro read_u16_prefix) simp_all
  show "fst (read_fmt_fields subchunkSize s)
           = \<lparr>f_audioFormat = af, f_numChannels = nc, f_sampleRate = sr, f_byteRate = br,
              f_blockAlign = ba, f_bitDepth = bd\<rparr>"
    by (simp add: read_fmt_fields_def 1 2 3 4 5 6)
  show "snd (read_fmt_fields subchunkSize s)
           = \<lparr>unread = drop (unat subchunkSize - 16) tail, failbit = False, gcount = 2\<rparr>"
  proof (cases "16 < unat subchunkSize")
    case True
    then have "0 < int (unat subchunkSize) - 16"
      and "nat (int (unat subchunkSize) - 16) = unat subchunkSize - 16"
      by linarith+
    then show ?thesis
      by (simp only: read_fmt_fields_def 1 2 3 4 5 6 Let_def split_conv snd_conv if_True
          ifstream_seekg_cur_def) simp
  next
    case False
    then have "\<not> 0 < int (unat subchunkSize) - 16" and "unat subchunkSize - 16 = 0"
      by linarith+
    then show ?thesis
      by (simp only: read_fmt_fields_def 1 2 3 4 5 6 Let_def split_conv snd_conv if_False
          drop_0)
  qed
qed


lemma scan_body_fmt:
  assumes "\<not> failbit (r_fileStream r)"
    and "unread (r_fileStream r)
           = bytes_of ''fmt '' @ le32 subchunkSize @ fmt_payload af nc sr br ba bd @ tail"
  shows "scan_body foundFmt foundData r
     = assign_fmt_fields
         \<lparr>f_audioFormat = af, f_numChannels = nc, f_sampleRate = sr, f_byteRate = br,
          f_blockAlign = ba, f_bitDepth = bd\<rparr> foundData
         (r\<lparr>r_fileStream :=
               \<lparr>unread = drop (unat subchunkSize - 16) tail, failbit = False, gcount = 2\<rparr>\<rparr>)"
proof -
  let ?s1 = "\<lparr>unread = le32 subchunkSize @ fmt_payload af nc sr br ba bd @ tail,
              failbit = False, gcount = 4\<rparr>"
  let ?s2 = "\<lparr>unread = fmt_payload af nc sr br ba bd @ tail, failbit = False, gcount = 4\<rparr>"
  have 1: "ifstream_read 4 (r_fileStream r) = (bytes_of ''fmt '', ?s1)"
    using assms by (intro ifstream_read_prefix) (simp_all add: bytes_of_def)
  have 2: "read_u32 ?s1 = (subchunkSize, ?s2)" by (intro read_u32_prefix) simp_all
  have 3: "read_fmt_fields subchunkSize ?s2
      = (\<lparr>f_audioFormat = af, f_numChannels = nc, f_sampleRate = sr, f_byteRate = br,
          f_blockAlign = ba, f_bitDepth = bd\<rparr>,
         \<lparr>unread = drop (unat subchunkSize - 16) tail, failbit = False, gcount = 2\<rparr>)"
    using read_fmt_fields_prefix [of ?s2 af nc sr br ba bd tail subchunkSize]
    by (simp add: prod_eq_iff)
  show ?thesis
    by (simp add: scan_body_def 1 2 scan_fmt_def 3)
qed


lemma and_not_mask_eq: "(w :: 32 word) AND NOT (mask n) = push_bit n (drop_bit n w)"
  by (rule bit_word_eqI) (auto simp: bit_simps)

lemma unat_push_drop: "unat (push_bit n (drop_bit n (w :: 32 word))) = push_bit n (drop_bit n (unat w))"
proof -
  have "unat (push_bit n (drop_bit n w)) = take_bit 32 (push_bit n (drop_bit n (unat w)))"
    by (simp add: unsigned_push_bit_eq unat_drop_bit_eq)
  also have "\<dots> = push_bit n (drop_bit n (unat w))"
  proof (rule take_bit_nat_eq_self)
    have "push_bit n (drop_bit n (unat w)) \<le> unat w"
      by (simp add: push_bit_eq_mult drop_bit_eq_div)
    also have "unat w < 2 ^ 32" using unsigned_less [of w] by simp
    finally show "push_bit n (drop_bit n (unat w)) < 2 ^ 32" .
  qed
  finally show ?thesis .
qed

lemma unat_and_not_1: "unat ((w :: 32 word) AND NOT 1) = 2 * (unat w div 2)"
  using and_not_mask_eq [of w 1] unat_push_drop [of 1 w]
  by (simp add: push_bit_eq_mult drop_bit_eq_div)

lemma padded_size:
  assumes "n < 2 ^ 32 - 1"
  shows "unat (((of_nat n :: 32 word) + 1) AND NOT 1) = (if odd n then n + 1 else n)"
proof -
  have "unat ((of_nat n :: 32 word) + 1) = n + 1"
    using assms by (simp add: unat_word_ariths unat_of_nat take_bit_nat_eq_self)
  then have "unat (((of_nat n :: 32 word) + 1) AND NOT 1) = 2 * ((n + 1) div 2)"
    by (simp only: unat_and_not_1)
  then show ?thesis by (simp only:) presburger
qed

lemma scan_body_unknown:
  assumes "\<not> failbit (r_fileStream r)"
    and "unread (r_fileStream r) = ident @ le32 subchunkSize @ tail"
    and "length ident = 4" "ident \<noteq> bytes_of ''fmt ''" "ident \<noteq> bytes_of ''data''"
  shows "scan_body foundFmt foundData r
     = Next foundFmt foundData
         (r\<lparr>r_fileStream :=
               \<lparr>unread = drop (unat ((subchunkSize + 1) AND NOT 1)) tail, failbit = False,
                gcount = 4\<rparr>\<rparr>)"
proof -
  let ?s1 = "\<lparr>unread = le32 subchunkSize @ tail, failbit = False, gcount = 4\<rparr>"
  let ?s2 = "\<lparr>unread = tail, failbit = False, gcount = 4\<rparr>"
  have 1: "ifstream_read 4 (r_fileStream r) = (ident, ?s1)"
    using assms(1-3) by (intro ifstream_read_prefix) simp_all
  have 2: "read_u32 ?s1 = (subchunkSize, ?s2)" by (intro read_u32_prefix) simp_all
  show ?thesis
    using assms(4,5) by (simp add: scan_body_def 1 2 ifstream_seekg_cur_def)
qed

lemma scan_body_data:
  assumes "\<not> failbit (r_fileStream r)"
    and "unread (r_fileStream r) = bytes_of ''data'' @ le32 subchunkSize @ tail"
  shows "scan_body foundFmt foundData r
     = Next foundFmt True
         (r\<lparr>r_fileStream := \<lparr>unread = tail, failbit = False, gcount = 4\<rparr>,
            r_config := (r_config r)\<lparr>dataChunkSize := subchunkSize\<rparr>\<rparr>)"
proof -
  let ?s1 = "\<lparr>unread = le32 subchunkSize @ tail, failbit = False, gcount = 4\<rparr>"
  let ?s2 = "\<lparr>unread = tail, failbit = False, gcount = 4\<rparr>"
  have 1: "ifstream_read 4 (r_fileStream r) = (bytes_of ''data'', ?s1)"
    using assms by (intro ifstream_read_prefix) (simp_all add: bytes_of_def)
  have 2: "read_u32 ?s1 = (subchunkSize, ?s2)" by (intro read_u32_prefix) simp_all
  have ne: "bytes_of ''data'' \<noteq> bytes_of ''fmt ''" by (simp add: bytes_of_def)
  show ?thesis
    by (simp add: scan_body_def 1 2 ne)
qed

lemma scan_chunks_step:
  assumes "\<not> failbit (r_fileStream r)" "\<not> (foundFmt \<and> foundData)"
    and "scan_body foundFmt foundData r = Next ff fd r'"
  shows "scan_chunks foundFmt foundData r = scan_chunks ff fd r'"
  using assms by (subst scan_chunks.simps) auto

lemma scan_chunks_done: "scan_chunks True True r = (True, r)"
  by (subst scan_chunks.simps) simp

text \<open>A skippable chunk is skipped whole, with its padding byte.\<close>

lemma scan_chunks_skip:
  assumes "\<not> (foundFmt \<and> foundData)" "skippable (ident, payload)"
  shows "scan_chunks foundFmt foundData
           (r\<lparr>r_fileStream := \<lparr>unread = riff_chunk ident payload @ tail, failbit = False,
                                 gcount = g\<rparr>\<rparr>)
       = scan_chunks foundFmt foundData
           (r\<lparr>r_fileStream := \<lparr>unread = tail, failbit = False, gcount = 4\<rparr>\<rparr>)"
proof -
  let ?n = "length payload"
  let ?pad = "if odd ?n then [0] else ([] :: byte list)"
  let ?r = "r\<lparr>r_fileStream := \<lparr>unread = riff_chunk ident payload @ tail, failbit = False,
                                 gcount = g\<rparr>\<rparr>"
  from assms(2) have id: "length ident = 4" "ident \<noteq> bytes_of ''fmt ''"
    "ident \<noteq> bytes_of ''data''" and n: "?n < 2 ^ 32 - 1"
    by (simp_all add: skippable_def)
  have sz: "unat (((of_nat ?n :: 32 word) + 1) AND NOT 1) = length (payload @ ?pad)"
    using padded_size [OF n] by simp
  have "scan_body foundFmt foundData ?r
     = Next foundFmt foundData
         (?r\<lparr>r_fileStream :=
               \<lparr>unread = drop (unat (((of_nat ?n :: 32 word) + 1) AND NOT 1))
                          ((payload @ ?pad) @ tail),
                failbit = False, gcount = 4\<rparr>\<rparr>)"
    using id by (intro scan_body_unknown) (simp_all add: riff_chunk_def)
  then have "scan_body foundFmt foundData ?r
     = Next foundFmt foundData (r\<lparr>r_fileStream := \<lparr>unread = tail, failbit = False, gcount = 4\<rparr>\<rparr>)"
    unfolding sz by simp
  with assms(1) show ?thesis by (intro scan_chunks_step) simp_all
qed

lemma scan_chunks_skip_all:
  assumes "\<not> (foundFmt \<and> foundData)" "list_all skippable cs" "cs \<noteq> []"
  shows "scan_chunks foundFmt foundData
           (r\<lparr>r_fileStream := \<lparr>unread = riff_chunks cs @ tail, failbit = False, gcount = g\<rparr>\<rparr>)
       = scan_chunks foundFmt foundData
           (r\<lparr>r_fileStream := \<lparr>unread = tail, failbit = False, gcount = 4\<rparr>\<rparr>)"
  using assms(2,3)
proof (induction cs arbitrary: g)
  case Nil
  then show ?case by simp
next
  case (Cons c cs)
  obtain ident payload where c: "c = (ident, payload)" by (cases c)
  with Cons.prems have sk: "skippable (ident, payload)" "list_all skippable cs" by simp_all
  have "scan_chunks foundFmt foundData
           (r\<lparr>r_fileStream := \<lparr>unread = riff_chunks (c # cs) @ tail, failbit = False,
                                 gcount = g\<rparr>\<rparr>)
      = scan_chunks foundFmt foundData
           (r\<lparr>r_fileStream := \<lparr>unread = riff_chunks cs @ tail, failbit = False,
                                 gcount = 4\<rparr>\<rparr>)"
    using scan_chunks_skip [OF assms(1) sk(1), where r = r and tail = "riff_chunks cs @ tail"
        and g = g]
    by (simp add: riff_chunks_def c)
  also have "\<dots> = scan_chunks foundFmt foundData
           (r\<lparr>r_fileStream := \<lparr>unread = tail, failbit = False, gcount = 4\<rparr>\<rparr>)"
  proof (cases "cs = []")
    case True
    then show ?thesis by (simp add: riff_chunks_def)
  next
    case False
    with sk(2) show ?thesis by (rule Cons.IH)
  qed
  finally show ?case .
qed

lemma read_header_prefix:
  assumes "unread (r_fileStream r) = bytes_of ''RIFF'' @ le32 chunkSize @ bytes_of ''WAVE'' @ body"
    and "\<not> failbit (r_fileStream r)"
  shows "read_header r
     = scan_chunks False False (r\<lparr>r_fileStream := \<lparr>unread = body, failbit = False, gcount = 4\<rparr>\<rparr>)"
proof -
  let ?s1 = "\<lparr>unread = le32 chunkSize @ bytes_of ''WAVE'' @ body, failbit = False, gcount = 4\<rparr>"
  let ?s2 = "\<lparr>unread = bytes_of ''WAVE'' @ body, failbit = False, gcount = 4\<rparr>"
  let ?s3 = "\<lparr>unread = body, failbit = False, gcount = 4\<rparr>"
  have 1: "ifstream_read 4 (r_fileStream r) = (bytes_of ''RIFF'', ?s1)"
    using assms by (intro ifstream_read_prefix) (simp_all add: bytes_of_def)
  have 2: "read_u32 ?s1 = (chunkSize, ?s2)" by (intro read_u32_prefix) simp_all
  have 3: "ifstream_read 4 ?s2 = (bytes_of ''WAVE'', ?s3)"
    by (intro ifstream_read_prefix) (simp_all add: bytes_of_def)
  have 4: "char_array4 (bytes_of ''RIFF'') = bytes_of ''RIFF''"
    "char_array4 (bytes_of ''WAVE'') = bytes_of ''WAVE''"
    by (simp_all add: char_array4_def bytes_of_def)
  show ?thesis by (simp add: read_header_def 1 2 3 4)
qed

lemma assign_fmt_fields_supported:
  assumes "fmt_supported (f_audioFormat fmt) (f_numChannels fmt) (f_sampleRate fmt)
             (f_bitDepth fmt)"
    and "\<not> failbit (r_fileStream r0)"
  shows "assign_fmt_fields fmt foundData r0
     = Next True foundData
         (r0\<lparr>r_config := (r_config r0)
               \<lparr>format := WavFormat_cast (f_audioFormat fmt),
                numChannels := ucast (f_numChannels fmt),
                bitDepth := WavBitDepth_cast (f_bitDepth fmt),
                sampleRate := WavSampleRate_cast (f_sampleRate fmt),
                blockAlign := f_blockAlign fmt\<rparr>\<rparr>)"
proof -
  define A where "A \<longleftrightarrow> (f_audioFormat fmt = 1 \<or> f_audioFormat fmt = 3)"
  define B where "B \<longleftrightarrow> 0 < f_numChannels fmt"
  define C where "C \<longleftrightarrow> (f_bitDepth fmt = 8 \<or> f_bitDepth fmt = 16 \<or> f_bitDepth fmt = 24
                \<or> f_bitDepth fmt = 32)"
  define D where "D \<longleftrightarrow> (f_sampleRate fmt = 8000 \<or> f_sampleRate fmt = 11025
                \<or> f_sampleRate fmt = 16000 \<or> f_sampleRate fmt = 22050
                \<or> f_sampleRate fmt = 32000 \<or> f_sampleRate fmt = 44100
                \<or> f_sampleRate fmt = 48000 \<or> f_sampleRate fmt = 96000
                \<or> f_sampleRate fmt = 176400 \<or> f_sampleRate fmt = 192000
                \<or> f_sampleRate fmt = 352800 \<or> f_sampleRate fmt = 384000)"
  define F where "F = WavFormat_cast (f_audioFormat fmt)"
  define G where "G = WavBitDepth_cast (f_bitDepth fmt)"
  define S where "S = WavSampleRate_cast (f_sampleRate fmt)"
  have eq: "assign_fmt_fields fmt foundData r0 =
     (if \<not> A then ReturnFalse r0
      else
      let r1 = r0\<lparr>r_config := (r_config r0)\<lparr>format := F\<rparr>\<rparr>
      in if \<not> B then ReturnFalse r1
         else
      let r2 = r1\<lparr>r_config := (r_config r1)\<lparr>numChannels := ucast (f_numChannels fmt)\<rparr>\<rparr>
      in if \<not> C then ReturnFalse r2
         else
      let r3 = r2\<lparr>r_config := (r_config r2)\<lparr>bitDepth := G\<rparr>\<rparr>
      in if \<not> D then ReturnFalse r3
         else
      let r4 = r3\<lparr>r_config := (r_config r3)
                   \<lparr>sampleRate := S, blockAlign := f_blockAlign fmt\<rparr>\<rparr>
      in if format (r_config r4) = FLOAT \<and> bitDepth (r_config r4) \<noteq> BIT_DEPTH_32
         then ReturnFalse r4
         else if failbit (r_fileStream r4) then ReturnFalse r4
         else Next True foundData r4)"
    unfolding assign_fmt_fields_def A_def B_def C_def D_def F_def G_def S_def ..
  from assms(1) have abcd: A B C D
    and fl: "\<not> (f_audioFormat fmt = 3 \<and> f_bitDepth fmt \<noteq> 32)"
    unfolding fmt_supported_def A_def B_def C_def D_def
    by (simp_all add: word_greater_zero_iff)
  have "\<not> (F = FLOAT \<and> G \<noteq> BIT_DEPTH_32)"
  proof
    assume fg: "F = FLOAT \<and> G \<noteq> BIT_DEPTH_32"
    then have "f_audioFormat fmt = 3" using abcd(1)
      unfolding F_def A_def WavFormat_cast_def by (auto split: if_splits)
    moreover from fg have "f_bitDepth fmt \<noteq> 32"
      unfolding G_def WavBitDepth_cast_def by (auto split: if_splits)
    ultimately show False using fl by simp
  qed
  with abcd assms(2) show ?thesis
    unfolding eq F_def [symmetric] G_def [symmetric] S_def [symmetric]
    by (simp add: Let_def)
qed

text \<open>
  A header whose fmt chunk of sixteen bytes carries supported values and whose data chunk
  follows, each after any number of skippable chunks, is accepted, and the Reader holds
  the values of the header and stands at the first byte of the payload.
\<close>

lemma scan_chunks_skip_list:
  assumes "\<not> (foundFmt \<and> foundData)" "list_all skippable cs"
  shows "scan_chunks foundFmt foundData
           (r\<lparr>r_fileStream := \<lparr>unread = riff_chunks cs @ tail, failbit = False, gcount = 4\<rparr>\<rparr>)
       = scan_chunks foundFmt foundData
           (r\<lparr>r_fileStream := \<lparr>unread = tail, failbit = False, gcount = 4\<rparr>\<rparr>)"
proof (cases "cs = []")
  case True
  then show ?thesis by (simp add: riff_chunks_def)
next
  case False
  with assms show ?thesis by (intro scan_chunks_skip_all)
qed

lemma scan_chunks_canonical:
  assumes "list_all skippable before" "list_all skippable between"
    and "fmt_supported af nc sr bd"
  shows "scan_chunks False False
      (r\<lparr>r_fileStream :=
           \<lparr>unread = riff_chunks before
              @ bytes_of ''fmt '' @ le32 16 @ fmt_payload af nc sr br ba bd
              @ riff_chunks between @ bytes_of ''data'' @ le32 dataSize @ payload,
            failbit = False, gcount = 4\<rparr>\<rparr>)
    = (True,
       r\<lparr>r_config := (r_config r)
             \<lparr>format := WavFormat_cast af, numChannels := ucast nc,
              bitDepth := WavBitDepth_cast bd, sampleRate := WavSampleRate_cast sr,
              blockAlign := ba, dataChunkSize := dataSize\<rparr>,
         r_fileStream := \<lparr>unread = payload, failbit = False, gcount = 4\<rparr>\<rparr>)"
proof -
  let ?fmt = "\<lparr>f_audioFormat = af, f_numChannels = nc, f_sampleRate = sr, f_byteRate = br,
              f_blockAlign = ba, f_bitDepth = bd\<rparr>"
  let ?t2 = "riff_chunks between @ bytes_of ''data'' @ le32 dataSize @ payload"
  let ?t1 = "bytes_of ''fmt '' @ le32 16 @ fmt_payload af nc sr br ba bd @ ?t2"
  let ?r1 = "r\<lparr>r_fileStream := \<lparr>unread = ?t1, failbit = False, gcount = 4\<rparr>\<rparr>"
  let ?cfg = "(r_config r)\<lparr>format := WavFormat_cast af, numChannels := ucast nc,
                bitDepth := WavBitDepth_cast bd, sampleRate := WavSampleRate_cast sr,
                blockAlign := ba\<rparr>"
  let ?r2 = "r\<lparr>r_config := ?cfg\<rparr>"
  have "scan_chunks False False
      (r\<lparr>r_fileStream := \<lparr>unread = riff_chunks before @ ?t1, failbit = False, gcount = 4\<rparr>\<rparr>)
      = scan_chunks False False ?r1"
    using assms(1) by (intro scan_chunks_skip_list) simp_all
  also have "\<dots> = scan_chunks True False
      (?r2\<lparr>r_fileStream := \<lparr>unread = ?t2, failbit = False, gcount = 2\<rparr>\<rparr>)"
  proof (rule scan_chunks_step)
    have "scan_body False False ?r1
        = assign_fmt_fields ?fmt False
            (?r1\<lparr>r_fileStream := \<lparr>unread = drop (unat (16 :: 32 word) - 16) ?t2,
                                   failbit = False, gcount = 2\<rparr>\<rparr>)"
      by (rule scan_body_fmt) simp_all
    also have "\<dots> = Next True False
        (?r2\<lparr>r_fileStream := \<lparr>unread = ?t2, failbit = False, gcount = 2\<rparr>\<rparr>)"
      using assms(3) by (subst assign_fmt_fields_supported) simp_all
    finally show "scan_body False False ?r1
        = Next True False (?r2\<lparr>r_fileStream := \<lparr>unread = ?t2, failbit = False, gcount = 2\<rparr>\<rparr>)" .
  qed simp_all
  also have "\<dots> = scan_chunks True False
      (?r2\<lparr>r_fileStream := \<lparr>unread = ?t2, failbit = False, gcount = 4\<rparr>\<rparr>)"
  proof (cases "between = []")
    case True
    have "scan_body True False (?r2\<lparr>r_fileStream := \<lparr>unread = ?t2, failbit = False, gcount = 2\<rparr>\<rparr>)
        = scan_body True False (?r2\<lparr>r_fileStream := \<lparr>unread = ?t2, failbit = False, gcount = 4\<rparr>\<rparr>)"
      by (simp add: scan_body_def ifstream_read_def)
    then show ?thesis
      by (subst (1 2) scan_chunks.simps) simp
  next
    case False
    have "scan_chunks True False
            (?r2\<lparr>r_fileStream := \<lparr>unread = ?t2, failbit = False, gcount = 2\<rparr>\<rparr>)
        = scan_chunks True False
            (?r2\<lparr>r_fileStream := \<lparr>unread = bytes_of ''data'' @ le32 dataSize @ payload,
                                   failbit = False, gcount = 4\<rparr>\<rparr>)"
      using assms(2) False by (intro scan_chunks_skip_all) simp_all
    moreover have "scan_chunks True False
            (?r2\<lparr>r_fileStream := \<lparr>unread = ?t2, failbit = False, gcount = 4\<rparr>\<rparr>)
        = scan_chunks True False
            (?r2\<lparr>r_fileStream := \<lparr>unread = bytes_of ''data'' @ le32 dataSize @ payload,
                                   failbit = False, gcount = 4\<rparr>\<rparr>)"
      using assms(2) False by (intro scan_chunks_skip_all) simp_all
    ultimately show ?thesis by simp
  qed
  also have "\<dots> = scan_chunks True False
      (?r2\<lparr>r_fileStream := \<lparr>unread = bytes_of ''data'' @ le32 dataSize @ payload,
                             failbit = False, gcount = 4\<rparr>\<rparr>)"
    using assms(2) by (intro scan_chunks_skip_list) simp_all
  also have "\<dots> = scan_chunks True True
      (?r2\<lparr>r_fileStream := \<lparr>unread = payload, failbit = False, gcount = 4\<rparr>,
           r_config := ?cfg\<lparr>dataChunkSize := dataSize\<rparr>\<rparr>)"
    by (rule scan_chunks_step, simp, simp, subst scan_body_data) simp_all
  also have "\<dots> = (True, ?r2\<lparr>r_fileStream := \<lparr>unread = payload, failbit = False, gcount = 4\<rparr>,
           r_config := ?cfg\<lparr>dataChunkSize := dataSize\<rparr>\<rparr>)"
    by (rule scan_chunks_done)
  finally show ?thesis by simp
qed

lemma create_finds_fmt_and_data_after_skipped_chunks:
  assumes "files name
      = Some (bytes_of ''RIFF'' @ le32 chunkSize @ bytes_of ''WAVE'' @ riff_chunks before
              @ bytes_of ''fmt '' @ le32 16 @ fmt_payload af nc sr br ba bd
              @ riff_chunks between @ bytes_of ''data'' @ le32 dataSize @ payload)"
    and "list_all skippable before" "list_all skippable between"
    and "fmt_supported af nc sr bd"
  shows "WavReader_create files name
      = Some \<lparr>r_config = \<lparr>filename = name, sampleRate = WavSampleRate_cast sr,
                          numChannels = ucast nc, bitDepth = WavBitDepth_cast bd,
                          format = WavFormat_cast af, blockAlign = ba,
                          dataChunkSize = dataSize\<rparr>,
              r_fileStream = \<lparr>unread = payload, failbit = False, gcount = 4\<rparr>\<rparr>"
proof -
  let ?r = "WavReader_new name"
  let ?body = "riff_chunks before
              @ bytes_of ''fmt '' @ le32 16 @ fmt_payload af nc sr br ba bd
              @ riff_chunks between @ bytes_of ''data'' @ le32 dataSize @ payload"
  have "WavReader_open_file files ?r
      = read_header (?r\<lparr>r_fileStream :=
          \<lparr>unread = bytes_of ''RIFF'' @ le32 chunkSize @ bytes_of ''WAVE'' @ ?body,
           failbit = False, gcount = 0\<rparr>\<rparr>)"
    using assms(1) by (simp add: WavReader_open_file_def WavReader_new_def)
  also have "\<dots> = scan_chunks False False
      (?r\<lparr>r_fileStream := \<lparr>unread = ?body, failbit = False, gcount = 4\<rparr>\<rparr>)"
    by (subst read_header_prefix [where chunkSize = chunkSize and body = ?body]) simp_all
  also have "\<dots> = (True,
       ?r\<lparr>r_config := (r_config ?r)
             \<lparr>format := WavFormat_cast af, numChannels := ucast nc,
              bitDepth := WavBitDepth_cast bd, sampleRate := WavSampleRate_cast sr,
              blockAlign := ba, dataChunkSize := dataSize\<rparr>,
         r_fileStream := \<lparr>unread = payload, failbit = False, gcount = 4\<rparr>\<rparr>)"
    by (rule scan_chunks_canonical [OF assms(2-4)])
  finally show ?thesis
    by (simp add: WavReader_create_def WavReader_new_def)
qed




text \<open>A subchunk of declared size \<open>2\<^sup>3\<^sup>2 - 1\<close>: the padded size wraps to 0.\<close>

lemma scan_chunks_size_wraps:
  assumes "\<not> (foundFmt \<and> foundData)"
    and "length ident = 4" "ident \<noteq> bytes_of ''fmt ''" "ident \<noteq> bytes_of ''data''"
  shows "scan_chunks foundFmt foundData
           (r\<lparr>r_fileStream := \<lparr>unread = ident @ le32 0xFFFFFFFF @ tail, failbit = False,
                                 gcount = g\<rparr>\<rparr>)
       = scan_chunks foundFmt foundData
           (r\<lparr>r_fileStream := \<lparr>unread = tail, failbit = False, gcount = 4\<rparr>\<rparr>)"
proof -
  let ?r = "r\<lparr>r_fileStream := \<lparr>unread = ident @ le32 0xFFFFFFFF @ tail, failbit = False,
                                 gcount = g\<rparr>\<rparr>"
  have "scan_body foundFmt foundData ?r
     = Next foundFmt foundData
         (?r\<lparr>r_fileStream :=
               \<lparr>unread = drop (unat (((0xFFFFFFFF :: 32 word) + 1) AND NOT 1)) tail,
                failbit = False, gcount = 4\<rparr>\<rparr>)"
    using assms(2-4) by (intro scan_body_unknown) simp_all
  then have "scan_body foundFmt foundData ?r
     = Next foundFmt foundData (r\<lparr>r_fileStream := \<lparr>unread = tail, failbit = False, gcount = 4\<rparr>\<rparr>)"
    by simp
  with assms(1) show ?thesis by (intro scan_chunks_step) simp_all
qed

text \<open>
  Claim C8 says that a chunk that is neither fmt nor data is skipped by its declared size
  rounded up to even, an odd size \<open>s\<close> advancing \<open>s + 1\<close> bytes.  That holds for every
  size below \<open>2\<^sup>3\<^sup>2 - 1\<close> (lemma \<open>scan_chunks_skip\<close>), and the chunks after it are found
  (lemma \<open>create_finds_fmt_and_data_after_skipped_chunks\<close>).  At the declared size
  \<open>2\<^sup>3\<^sup>2 - 1\<close> the sum \<^verbatim>\<open>subchunkSize + 1\<close> wraps in 32 bits and nothing is skipped: the
  file below, whose \<^verbatim>\<open>JUNK\<close> chunk declares that size and is followed at once by a fmt and
  a data chunk, opens, where an advance of \<open>2\<^sup>3\<^sup>2\<close> bytes would exhaust the stream.
\<close>

theorem unknown_chunk_of_size_0xFFFFFFFF_not_skipped:
  "WavReader_create
     [''junk.wav'' \<mapsto>
        bytes_of ''RIFF'' @ le32 0 @ bytes_of ''WAVE''
        @ bytes_of ''JUNK'' @ le32 0xFFFFFFFF
        @ bytes_of ''fmt '' @ le32 16 @ fmt_payload 1 1 44100 88200 2 16
        @ bytes_of ''data'' @ le32 0]
     ''junk.wav''
   = Some \<lparr>r_config = \<lparr>filename = ''junk.wav'', sampleRate = SAMPLE_RATE_44100,
                       numChannels = 1, bitDepth = BIT_DEPTH_16, format = PCM,
                       blockAlign = 2, dataChunkSize = 0\<rparr>,
           r_fileStream = \<lparr>unread = [], failbit = False, gcount = 4\<rparr>\<rparr>"
proof -
  let ?r = "WavReader_new ''junk.wav''"
  let ?t1 = "bytes_of ''fmt '' @ le32 16 @ fmt_payload 1 1 44100 88200 2 16
        @ bytes_of ''data'' @ le32 0"
  have j: "length (bytes_of ''JUNK'') = 4" "bytes_of ''JUNK'' \<noteq> bytes_of ''fmt ''"
    "bytes_of ''JUNK'' \<noteq> bytes_of ''data''"
    by (simp_all add: bytes_of_def)
  have "read_header (?r\<lparr>r_fileStream :=
          \<lparr>unread = bytes_of ''RIFF'' @ le32 0 @ bytes_of ''WAVE''
                     @ bytes_of ''JUNK'' @ le32 0xFFFFFFFF @ ?t1,
           failbit = False, gcount = 0\<rparr>\<rparr>)
      = scan_chunks False False
      (?r\<lparr>r_fileStream := \<lparr>unread = bytes_of ''JUNK'' @ le32 0xFFFFFFFF @ ?t1,
                            failbit = False, gcount = 4\<rparr>\<rparr>)"
    by (subst read_header_prefix [where chunkSize = 0
          and body = "bytes_of ''JUNK'' @ le32 0xFFFFFFFF @ ?t1"]) simp_all
  also have "\<dots> = scan_chunks False False
      (?r\<lparr>r_fileStream := \<lparr>unread = ?t1, failbit = False, gcount = 4\<rparr>\<rparr>)"
    using j by (intro scan_chunks_size_wraps) simp_all
  also have "\<dots> = (True,
       ?r\<lparr>r_config := (r_config ?r)
             \<lparr>format := WavFormat_cast 1, numChannels := ucast (1 :: 16 word),
              bitDepth := WavBitDepth_cast 16, sampleRate := WavSampleRate_cast 44100,
              blockAlign := 2, dataChunkSize := 0\<rparr>,
         r_fileStream := \<lparr>unread = [], failbit = False, gcount = 4\<rparr>\<rparr>)"
  proof -
    have "fmt_supported 1 1 44100 16" by (simp add: fmt_supported_def)
    from scan_chunks_canonical [where before = "[]" and between = "[]" and af = 1 and nc = 1
        and sr = 44100 and bd = 16 and br = 88200 and ba = 2 and dataSize = 0
        and payload = "[]" and r = ?r, OF _ _ this]
    show ?thesis unfolding riff_chunks_def by simp
  qed
  finally have "read_header (?r\<lparr>r_fileStream :=
          \<lparr>unread = bytes_of ''RIFF'' @ le32 0 @ bytes_of ''WAVE''
                     @ bytes_of ''JUNK'' @ le32 0xFFFFFFFF @ ?t1,
           failbit = False, gcount = 0\<rparr>\<rparr>) = (True,
       ?r\<lparr>r_config := (r_config ?r)
             \<lparr>format := WavFormat_cast 1, numChannels := ucast (1 :: 16 word),
              bitDepth := WavBitDepth_cast 16, sampleRate := WavSampleRate_cast 44100,
              blockAlign := 2, dataChunkSize := 0\<rparr>,
         r_fileStream := \<lparr>unread = [], failbit = False, gcount = 4\<rparr>\<rparr>)" .
  then show ?thesis
    by (simp add: WavReader_create_def WavReader_open_file_def WavReader_new_def
        WavFormat_cast_def WavBitDepth_cast_def WavSampleRate_cast_def)
qed

section \<open>Reading samples\<close>

lemma convert_samples_shape:
  assumes "input \<noteq> []" "list_all (\<lambda>c. length c = n) input"
  shows "convert_samples converter input = Inr (map (map converter) input)"
proof -
  obtain c0 cs where input: "input = c0 # cs" using assms(1) by (cases input) auto
  with assms(2) have c0: "length c0 = n" by simp
  have all: "list_all (\<lambda>c. length c0 \<le> length c) input"
    using assms(2) c0 by (simp add: list_all_iff)
  have "map (\<lambda>c. map (\<lambda>i. converter (c ! i)) [0..<length c0]) input = map (map converter) input"
  proof (rule map_cong [OF refl])
    fix c assume "c \<in> set input"
    with assms(2) c0 have "length c = length c0" by (simp add: list_all_iff)
    then have "map (\<lambda>i. converter (c ! i)) [0..<length c0]
        = map converter (map ((!) c) [0..<length c])" by simp
    also have "\<dots> = map converter c" by (simp only: map_nth)
    finally show "map (\<lambda>i. converter (c ! i)) [0..<length c0] = map converter c" .
  qed
  with all show ?thesis by (simp add: convert_samples_def input)
qed

text \<open>
  The other paths go through \<^verbatim>\<open>read_samples\<close>, which returns the complete frames that
  the stream still holds, at most \<open>count\<close>, and drops the bytes of a partial frame.
\<close>

lemma min_div_distrib: "min a b div k = min (a div k) (b div (k :: nat))"
proof (cases "a \<le> b")
  case True
  then have "a div k \<le> b div k" by (rule div_le_mono)
  with True show ?thesis by (simp add: min_def)
next
  case False
  then have "b div k \<le> a div k" by (intro div_le_mono) simp
  with False show ?thesis by (simp add: min_def)
qed

lemma frames_read:
  assumes "0 < (nc :: nat)" "0 < (sizeof :: nat)"
  shows "min (count * nc * sizeof) avail div sizeof div nc = min count (avail div (nc * sizeof))"
proof -
  have "min (count * nc * sizeof) avail div sizeof div nc
      = min (count * nc * sizeof) avail div (sizeof * nc)"
    by (simp add: div_mult2_eq)
  also have "\<dots> = min (count * (sizeof * nc) div (sizeof * nc)) (avail div (sizeof * nc))"
    by (simp only: min_div_distrib mult.assoc mult.commute [of nc sizeof])
  also have "\<dots> = min count (avail div (nc * sizeof))"
    using assms by (simp add: mult.commute)
  finally show ?thesis .
qed

lemma read_samples_frames:
  assumes "numChannels (r_config r) \<noteq> 0" "0 < sizeof" "\<not> failbit (r_fileStream r)"
  shows "\<exists>out r'. read_samples sizeof decode count r = Inr (out, r')
           \<and> length out = unat (numChannels (r_config r))
           \<and> list_all (\<lambda>c. length c
                 = min count (length (unread (r_fileStream r))
                               div (unat (numChannels (r_config r)) * sizeof))) out"
proof -
  let ?nc = "unat (numChannels (r_config r))"
  have nc: "0 < ?nc" using assms(1) by (simp add: unat_gt_0)
  have g: "gcount (snd (ifstream_read (count * ?nc * sizeof) (r_fileStream r)))
      = min (count * ?nc * sizeof) (length (unread (r_fileStream r)))"
    using assms(3) by (simp add: ifstream_read_def)
  show ?thesis
    using nc frames_read [OF nc assms(2), of count "length (unread (r_fileStream r))"]
    by (simp add: read_samples_def Let_def split_beta g list_all_iff)
qed

text \<open>
  So for FLOAT and for PCM of 8, 16 and 32 bits a read returns, per channel, the complete
  frames available, at most \<open>count\<close>, without an error.
\<close>

lemma read_returns_available_frames:
  assumes "numChannels (r_config r) \<noteq> 0" "\<not> failbit (r_fileStream r)"
    and "format (r_config r) = FLOAT \<or> bitDepth (r_config r) \<noteq> BIT_DEPTH_24"
  shows "\<exists>out r'. WavReader_read T count r = Inr (out, r')
           \<and> length out = unat (numChannels (r_config r))
           \<and> list_all (\<lambda>c. length c
                 = min count (length (unread (r_fileStream r))
                     div (unat (numChannels (r_config r))
                          * (case format (r_config r) of FLOAT \<Rightarrow> 4
                             | PCM \<Rightarrow> bit_depth_value (bitDepth (r_config r)) div 8)))) out"
proof -
  let ?nc = "unat (numChannels (r_config r))"
  have nc: "0 < ?nc" using assms(1) by (simp add: unat_gt_0)
  have conv: "\<And>(sizeof :: nat) (decode :: byte list \<Rightarrow> 'b) (f :: 'b \<Rightarrow> 'a). 0 < sizeof \<Longrightarrow>
     \<exists>out r'. and_then (read_samples sizeof decode count r) (\<lambda>(samples, r').
          and_then (convert_samples f samples) (\<lambda>out. Inr (out, r'))) = Inr (out, r')
           \<and> length out = ?nc
           \<and> list_all (\<lambda>c. length c
                 = min count (length (unread (r_fileStream r)) div (?nc * sizeof))) out"
  proof -
    fix sizeof :: nat and decode :: "byte list \<Rightarrow> 'b" and f :: "'b \<Rightarrow> 'a"
    assume "0 < sizeof"
    from read_samples_frames [OF assms(1) this assms(2), of decode count]
    obtain samples r' where s: "read_samples sizeof decode count r = Inr (samples, r')"
      "length samples = ?nc"
      "list_all (\<lambda>c. length c
                 = min count (length (unread (r_fileStream r)) div (?nc * sizeof))) samples"
      by blast
    from s(2) nc have "samples \<noteq> []" by auto
    from convert_samples_shape [OF this s(3), of f] s show
     "\<exists>out r'. and_then (read_samples sizeof decode count r) (\<lambda>(samples, r').
          and_then (convert_samples f samples) (\<lambda>out. Inr (out, r'))) = Inr (out, r')
           \<and> length out = ?nc
           \<and> list_all (\<lambda>c. length c
                 = min count (length (unread (r_fileStream r)) div (?nc * sizeof))) out"
      by (simp add: and_then_def list_all_iff)
  qed
  show ?thesis
  proof (cases "format (r_config r)")
    case FLOAT
    then show ?thesis
      using conv [of 4 "\<lambda>bs. Float32 (word_of_bytes bs)" "of_float32 T"]
      by (simp add: WavReader_read_def)
  next
    case PCM
    with assms(3) have b: "bitDepth (r_config r) \<noteq> BIT_DEPTH_24" by simp
    show ?thesis
    proof (cases "bitDepth (r_config r)")
      case BIT_DEPTH_8
      with PCM show ?thesis
        using conv [of 1 word_of_bytes "of_pcm8 T"] by (simp add: WavReader_read_def)
    next
      case BIT_DEPTH_16
      with PCM show ?thesis
        using conv [of 2 word_of_bytes "of_pcm16 T"] by (simp add: WavReader_read_def)
    next
      case BIT_DEPTH_24
      with b show ?thesis by simp
    next
      case BIT_DEPTH_32
      with PCM show ?thesis
        using conv [of 4 word_of_bytes "of_pcm32 T"] by (simp add: WavReader_read_def)
    qed
  qed
qed

subsection \<open>Reading past the end of the data\<close>

text \<open>
  Claim C3: when fewer complete frames remain than were requested, \<^verbatim>\<open>read\<close> returns
  buffers holding exactly the complete frames available. The 24-bit PCM case of
  \<^verbatim>\<open>WavReader::read\<close> does not go through \<^verbatim>\<open>read_samples\<close>: it sizes a byte vector for
  \<open>count\<close> frames, ignores how many bytes the stream delivered, and builds \<open>count\<close>
  samples for every channel. So a read of a 24-bit PCM file returns \<open>count\<close> frames for
  every \<open>count\<close>, whatever the stream still holds; the frames past the end are decoded
  from the zero bytes of the vector. For the other configurations the claim holds
  (lemma \<open>read_returns_available_frames\<close>).
\<close>

theorem read_pcm24_returns_requested_frames:
  assumes "format (r_config r) = PCM" "bitDepth (r_config r) = BIT_DEPTH_24"
    and "numChannels (r_config r) \<noteq> 0"
  shows "\<exists>out r'. WavReader_read T count r = Inr (out, r')
           \<and> length out = unat (numChannels (r_config r))
           \<and> list_all (\<lambda>c. length c = count) out"
proof -
  let ?nc = "unat (numChannels (r_config r))"
  let ?raw = "fst (read_raw_samples (count * ?nc * 3) r)"
  let ?samples = "map (\<lambda>j. map (\<lambda>i. pcm24_sample ?raw ?nc i j) [0..<count]) [0..<?nc]"
  have nc: "0 < ?nc" using assms(3) by (simp add: unat_gt_0)
  then have ne: "?samples \<noteq> []" by simp
  have sh: "list_all (\<lambda>c. length c = count) ?samples" by (simp add: list_all_iff)
  have "WavReader_read T count r
      = Inr (map (map (of_pcm24 T)) ?samples, snd (read_raw_samples (count * ?nc * 3) r))"
    using assms(1,2) convert_samples_shape [OF ne sh, of "of_pcm24 T"]
    by (simp add: WavReader_read_def Let_def split_beta and_then_def)
  then show ?thesis by (simp add: list_all_iff)
qed

text \<open>
  A mono 24-bit PCM reader with one frame (three bytes) left, asked for two frames,
  returns a channel of two samples.
\<close>

theorem read_pcm24_past_end_of_stream:
  "\<exists>out r'.
     WavReader_read (output_type_int32 (\<lambda>x. 0)) 2
       \<lparr>r_config = \<lparr>filename = ''in.wav'', sampleRate = SAMPLE_RATE_44100, numChannels = 1,
                    bitDepth = BIT_DEPTH_24, format = PCM, blockAlign = 3, dataChunkSize = 3\<rparr>,
        r_fileStream = \<lparr>unread = [0x00, 0x00, 0x40], failbit = False, gcount = 4\<rparr>\<rparr>
       = Inr (out, r')
     \<and> length out = 1 \<and> list_all (\<lambda>c. length c = 2) out"
  using read_pcm24_returns_requested_frames [of
      "\<lparr>r_config = \<lparr>filename = ''in.wav'', sampleRate = SAMPLE_RATE_44100, numChannels = 1,
                    bitDepth = BIT_DEPTH_24, format = PCM, blockAlign = 3, dataChunkSize = 3\<rparr>,
        r_fileStream = \<lparr>unread = [0x00, 0x00, 0x40], failbit = False, gcount = 4\<rparr>\<rparr>"
      "output_type_int32 (\<lambda>x. 0)" 2]
  by simp

subsection \<open>Reading 24-bit PCM as 32-bit integers\<close>

lemma convert_int32_to_float_0x400000:
  "truncate_float (convert_int32_to_float 0x400000) = 0"
  by code_simp

lemma pcm24_sample_0x400000: "pcm24_sample [0x00, 0x00, 0x40] (Suc 0) 0 0 = 0x400000"
  by (simp add: pcm24_sample_def)

text \<open>
  Claim C2: \<^verbatim>\<open>read<T>\<close> returns the native samples converted to \<open>T\<close> by the entry of the
  conversion matrix for the native kind and \<open>T\<close>, the identity when \<open>T\<close> is the native
  representation, 24-bit PCM included. The 24-bit PCM case converts every sample with
  \<^verbatim>\<open>convert_int32_to_float\<close> whatever \<open>T\<close> is, and the result is then narrowed to \<open>T\<close>.
  A mono 24-bit PCM file whose only frame is the bytes 00 00 40 holds the sample
  \<open>0x400000\<close>; read as \<^verbatim>\<open>int32_t\<close> it comes back as \<open>0\<close>, not as the sample.
\<close>

theorem read_int32_of_pcm24_is_not_the_sample:
  "pcm24_sample [0x00, 0x00, 0x40] 1 0 0 = 0x400000
   \<and> WavReader_read (output_type_int32 convert_float_to_int32) 1
       \<lparr>r_config = \<lparr>filename = ''in.wav'', sampleRate = SAMPLE_RATE_44100, numChannels = 1,
                    bitDepth = BIT_DEPTH_24, format = PCM, blockAlign = 3, dataChunkSize = 3\<rparr>,
        r_fileStream = \<lparr>unread = [0x00, 0x00, 0x40], failbit = False, gcount = 4\<rparr>\<rparr>
     = Inr ([[0]],
       \<lparr>r_config = \<lparr>filename = ''in.wav'', sampleRate = SAMPLE_RATE_44100, numChannels = 1,
                    bitDepth = BIT_DEPTH_24, format = PCM, blockAlign = 3, dataChunkSize = 3\<rparr>,
        r_fileStream = \<lparr>unread = [], failbit = False, gcount = 3\<rparr>\<rparr>)"
  by (simp add: WavReader_read_def read_raw_samples_def ifstream_read_def filled_def
      convert_samples_def and_then_def output_type_int32_def pcm24_sample_0x400000
      convert_int32_to_float_0x400000)

end
